theory Spec2Isabelle
  imports Main
begin

section \<open>AIGenerator: the bounded tool-calling orchestrator (backend/ai_generator.py)\<close>

subsection \<open>Exceptions\<close>

text \<open>
  What a call can raise. \<^verbatim>\<open>IndexError\<close> comes from \<^verbatim>\<open>response.content[0]\<close> on an
  empty content list, \<^verbatim>\<open>AttributeError\<close> from reading \<^verbatim>\<open>.text\<close> of a block that has
  none or \<^verbatim>\<open>.execute_tool\<close> of \<^verbatim>\<open>None\<close>. \<open>Raised s\<close> is any other instance of
  \<^verbatim>\<open>Exception\<close>, raised by the API client or by a tool; \<open>s\<close> is what \<^verbatim>\<open>str(e)\<close>
  does on it: return a text, or raise in its turn. \<open>NotException n\<close> is a raise that is
  not an instance of \<^verbatim>\<open>Exception\<close> (\<^verbatim>\<open>KeyboardInterrupt\<close>, \<^verbatim>\<open>SystemExit\<close>,
  \<^verbatim>\<open>GeneratorExit\<close>), named by \<open>n\<close>: the clause \<^verbatim>\<open>except Exception\<close> lets it through.
\<close>

datatype py_exception =
    IndexError
  | AttributeError string
  | Raised "py_exception + string"
  | NotException string

text \<open>\<^verbatim>\<open>Exception(m)\<close>: an instance of \<^verbatim>\<open>Exception\<close> whose \<^verbatim>\<open>str\<close> is \<open>m\<close>.\<close>

abbreviation Exception :: "string \<Rightarrow> py_exception" where
  "Exception m \<equiv> Raised (Inr m)"

text \<open>\<^verbatim>\<open>isinstance(e, Exception)\<close>, the test of every \<^verbatim>\<open>except Exception\<close> clause.\<close>

fun is_Exception :: "py_exception \<Rightarrow> bool" where
  "is_Exception (NotException n) = False"
| "is_Exception ex = True"

text \<open>\<^verbatim>\<open>str(e)\<close>, which returns a text or raises.\<close>

fun str_of :: "py_exception \<Rightarrow> py_exception + string" where
  "str_of IndexError = Inr ''list index out of range''"
| "str_of (AttributeError m) = Inr m"
| "str_of (Raised s) = s"
| "str_of (NotException n) = Inr n"

text \<open>A name between single quotes, as Python's error messages print it.\<close>

definition quoted :: "string \<Rightarrow> string" where
  "quoted s = CHR 0x27 # s @ [CHR 0x27]"

subsection \<open>Requests, replies and messages\<close>

type_synonym tool_input = "(string \<times> string) list"

type_synonym tool_def = string

text \<open>A content block of a reply: a text block, or a tool-use block carrying id, name, input.\<close>

datatype content_block =
    TextBlock string
  | ToolUseBlock string string tool_input

record response =
  stop_reason :: string
  content :: "content_block list"

text \<open>The dict \<^verbatim>\<open>{"type": "tool_result", "tool_use_id": ..., "content": ...}\<close>.\<close>

record tool_result =
  result_type :: string
  tool_use_id :: string
  result_content :: string

datatype message_content =
    Text string
  | Blocks "content_block list"
  | ToolResults "tool_result list"

text \<open>The dict \<^verbatim>\<open>{"role": ..., "content": ...}\<close>.\<close>

datatype message = Message string message_content

text \<open>
  The keyword arguments of \<^verbatim>\<open>client.messages.create\<close>. The keys \<^verbatim>\<open>tools\<close> and
  \<^verbatim>\<open>tool_choice\<close> are optional: \<open>None\<close> is an absent key.
\<close>

record api_params =
  p_model :: string
  p_temperature :: int
  p_max_tokens :: nat
  p_messages :: "message list"
  p_system :: string
  p_tools :: "tool_def list option"
  p_tool_choice :: "string option"

subsection \<open>The collaborators and the observable trace\<close>

text \<open>
  The language-model client and the tool manager are external. Each is a function of the
  request and of an arbitrary world state \<open>'w\<close>, returning a value or raising, and a new
  world state: a mock with a list of side effects, a client whose reply depends on the
  request, and a tool that changes what the model answers next are all instances.
\<close>

type_synonym 'w client_fn = "api_params \<Rightarrow> 'w \<Rightarrow> (py_exception + response) \<times> 'w"

type_synonym 'w tool_manager = "string \<Rightarrow> tool_input \<Rightarrow> 'w \<Rightarrow> (py_exception + string) \<times> 'w"

text \<open>
  The place in the source that issues a model call: the call in \<^verbatim>\<open>_execute_round\<close> (with
  its round number), the one in \<^verbatim>\<open>_execute_final_round\<close>, the one in
  \<^verbatim>\<open>_fallback_response\<close>.
\<close>

datatype call_site = RoundCall nat | SynthesisCall | FallbackCall

text \<open>
  The environment threads the world state and records, in order, every model call (where it
  was issued, its arguments, its outcome) and every \<^verbatim>\<open>execute_tool\<close> call (name,
  arguments, outcome). The two logs are what a mock's call list shows; no function of the
  orchestrator reads them.
\<close>

record 'w env =
  world :: 'w
  api_calls :: "(call_site \<times> api_params \<times> (py_exception + response)) list"
  tool_calls :: "(string \<times> tool_input \<times> (py_exception + string)) list"

text \<open>
  \<^verbatim>\<open>self\<close>: the client, the model name and the class constant \<^verbatim>\<open>SYSTEM_PROMPT\<close> (a
  fixed text whose wording no function depends on).
\<close>

record 'w AIGenerator =
  client :: "'w client_fn"
  self_model :: string
  SYSTEM_PROMPT :: string

text \<open>\<^verbatim>\<open>{**self.base_params, "messages": ..., "system": ...}\<close> plus the optional keys.\<close>

definition make_params ::
  "'w AIGenerator \<Rightarrow> message list \<Rightarrow> string \<Rightarrow> tool_def list option \<Rightarrow> string option \<Rightarrow> api_params"
where
  "make_params self msgs system_content tls choice =
     \<lparr>p_model = self_model self, p_temperature = 0, p_max_tokens = 800,
      p_messages = msgs, p_system = system_content, p_tools = tls, p_tool_choice = choice\<rparr>"

text \<open>\<^verbatim>\<open>self.client.messages.create(**params)\<close>, recorded in the trace.\<close>

definition messages_create ::
  "'w AIGenerator \<Rightarrow> call_site \<Rightarrow> api_params \<Rightarrow> 'w env \<Rightarrow> (py_exception + response) \<times> 'w env"
where
  "messages_create self site params e =
     (case client self params (world e) of
        (r, w') \<Rightarrow> (r, e\<lparr>world := w', api_calls := api_calls e @ [(site, params, r)]\<rparr>))"

text \<open>
  \<^verbatim>\<open>tool_manager.execute_tool(name, **input)\<close>, recorded in the trace. On \<^verbatim>\<open>None\<close>
  the attribute lookup raises before anything is called.
\<close>

definition execute_tool ::
  "'w tool_manager option \<Rightarrow> string \<Rightarrow> tool_input \<Rightarrow> 'w env \<Rightarrow> (py_exception + string) \<times> 'w env"
where
  "execute_tool tool_manager nm args e =
     (case tool_manager of
        None \<Rightarrow>
          (Inl (AttributeError (quoted ''NoneType'' @ '' object has no attribute ''
                                  @ quoted ''execute_tool'')), e)
      | Some tm \<Rightarrow>
          (case tm nm args (world e) of
             (r, w') \<Rightarrow> (r, e\<lparr>world := w', tool_calls := tool_calls e @ [(nm, args, r)]\<rparr>)))"

subsection \<open>The methods\<close>

text \<open>\<^verbatim>\<open>response.content[0].text\<close>.\<close>

definition first_text :: "response \<Rightarrow> py_exception + string" where
  "first_text r =
     (case content r of
        [] \<Rightarrow> Inl IndexError
      | TextBlock t # rest \<Rightarrow> Inr t
      | ToolUseBlock i n a # rest \<Rightarrow>
          Inl (AttributeError (quoted ''ToolUseBlock'' @ '' object has no attribute ''
                                 @ quoted ''text'')))"

text \<open>Truthiness of an optional list or string: neither \<^verbatim>\<open>None\<close> nor empty.\<close>

fun truthy :: "'a list option \<Rightarrow> bool" where
  "truthy None = False"
| "truthy (Some xs) = (xs \<noteq> [])"

text \<open>The system text built at the top of \<^verbatim>\<open>generate_response\<close> and of \<^verbatim>\<open>_fallback_response\<close>.\<close>

definition system_content_of :: "'w AIGenerator \<Rightarrow> string option \<Rightarrow> string" where
  "system_content_of self conversation_history =
     (case conversation_history of
        None \<Rightarrow> SYSTEM_PROMPT self
      | Some h \<Rightarrow>
          if h \<noteq> []
          then SYSTEM_PROMPT self @ [CHR 0x0A, CHR 0x0A] @ ''Previous conversation:''
                 @ [CHR 0x0A] @ h
          else SYSTEM_PROMPT self)"

text \<open>What \<^verbatim>\<open>_execute_round\<close> returns: a final text, or the reply that asks for tools.\<close>

datatype round_result = Final string | Continue response

text \<open>
  The request of \<^verbatim>\<open>_execute_round\<close>: the tools and the tool choice are added when
  the tool list is truthy and the round number is at most 2.
\<close>

definition round_params ::
  "'w AIGenerator \<Rightarrow> message list \<Rightarrow> string \<Rightarrow> tool_def list option \<Rightarrow> nat \<Rightarrow> api_params"
where
  "round_params self msgs system_content tls round_num =
     (if truthy tls \<and> round_num \<le> 2
      then make_params self msgs system_content tls (Some ''auto'')
      else make_params self msgs system_content None None)"

text \<open>\<^verbatim>\<open>_execute_round\<close>. A tool manager object is truthy; \<^verbatim>\<open>None\<close> is not.\<close>

definition execute_round ::
  "'w AIGenerator \<Rightarrow> message list \<Rightarrow> string \<Rightarrow> tool_def list option \<Rightarrow> 'w tool_manager option
     \<Rightarrow> nat \<Rightarrow> 'w env \<Rightarrow> (py_exception + round_result) \<times> 'w env"
where
  "execute_round self msgs system_content tls tool_manager round_num e =
     (case messages_create self (RoundCall round_num)
             (round_params self msgs system_content tls round_num) e of
        (Inl ex, e') \<Rightarrow> (Inl ex, e')
      | (Inr resp, e') \<Rightarrow>
          if stop_reason resp = ''tool_use'' \<and> tool_manager \<noteq> None
          then (Inr (Continue resp), e')
          else (case first_text resp of
                  Inl ex \<Rightarrow> (Inl ex, e')
                | Inr t \<Rightarrow> (Inr (Final t), e')))"

text \<open>
  The loop of \<^verbatim>\<open>_execute_tools\<close> over the content blocks: each tool-use block is
  executed inside its own \<^verbatim>\<open>try\<close>. The handler takes an instance of \<^verbatim>\<open>Exception\<close>
  and builds that call's result from \<^verbatim>\<open>str(e)\<close>; a raise of \<^verbatim>\<open>str(e)\<close> in the
  handler, and a raise that is no instance of \<^verbatim>\<open>Exception\<close>, leave the loop.
\<close>

fun execute_blocks ::
  "'w tool_manager option \<Rightarrow> content_block list \<Rightarrow> tool_result list \<Rightarrow> 'w env
     \<Rightarrow> (py_exception + tool_result list) \<times> 'w env"
where
  "execute_blocks tool_manager [] tool_results e = (Inr tool_results, e)"
| "execute_blocks tool_manager (TextBlock t # rest) tool_results e =
     execute_blocks tool_manager rest tool_results e"
| "execute_blocks tool_manager (ToolUseBlock i n a # rest) tool_results e =
     (case execute_tool tool_manager n a e of
        (Inr tool_result, e') \<Rightarrow>
          execute_blocks tool_manager rest
            (tool_results @ [\<lparr>result_type = ''tool_result'', tool_use_id = i,
                               result_content = tool_result\<rparr>]) e'
      | (Inl ex, e') \<Rightarrow>
          if is_Exception ex
          then (case str_of ex of
                  Inl ex' \<Rightarrow> (Inl ex', e')
                | Inr m \<Rightarrow>
                    execute_blocks tool_manager rest
                      (tool_results @ [\<lparr>result_type = ''tool_result'', tool_use_id = i,
                                         result_content = ''Tool execution error: '' @ m\<rparr>]) e')
          else (Inl ex, e'))"

text \<open>\<^verbatim>\<open>_execute_tools\<close>: \<^verbatim>\<open>None\<close> unless at least one result was produced.\<close>

definition execute_tools ::
  "response \<Rightarrow> 'w tool_manager option \<Rightarrow> 'w env
     \<Rightarrow> (py_exception + tool_result list option) \<times> 'w env"
where
  "execute_tools resp tool_manager e =
     (if stop_reason resp \<noteq> ''tool_use'' then (Inr None, e)
      else (case execute_blocks tool_manager (content resp) [] e of
              (Inl ex, e') \<Rightarrow> (Inl ex, e')
            | (Inr tool_results, e') \<Rightarrow>
                (Inr (if tool_results \<noteq> [] then Some tool_results else None), e')))"

text \<open>\<^verbatim>\<open>_execute_final_round\<close>: no tools key in the request.\<close>

definition execute_final_round ::
  "'w AIGenerator \<Rightarrow> message list \<Rightarrow> string \<Rightarrow> 'w env \<Rightarrow> (py_exception + string) \<times> 'w env"
where
  "execute_final_round self msgs system_content e =
     (case messages_create self SynthesisCall (make_params self msgs system_content None None) e of
        (Inl ex, e') \<Rightarrow> (Inl ex, e')
      | (Inr final_response, e') \<Rightarrow> (first_text final_response, e'))"

text \<open>
  \<^verbatim>\<open>_fallback_response\<close>: one call with the original query alone, inside a
  \<^verbatim>\<open>try\<close> whose handler takes an instance of \<^verbatim>\<open>Exception\<close> and returns the
  fixed text.
\<close>

definition fallback_response ::
  "'w AIGenerator \<Rightarrow> string \<Rightarrow> string option \<Rightarrow> string \<Rightarrow> 'w env
     \<Rightarrow> (py_exception + string) \<times> 'w env"
where
  "fallback_response self query conversation_history error e =
     (let system_content = system_content_of self conversation_history
      in case messages_create self FallbackCall
                (make_params self [Message ''user'' (Text query)] system_content None None) e of
           (Inl ex, e') \<Rightarrow>
             if is_Exception ex
             then (Inr ''I encountered an error processing your request. Please try again.'', e')
             else (Inl ex, e')
         | (Inr resp, e') \<Rightarrow>
             (case first_text resp of
                Inl ex \<Rightarrow>
                  if is_Exception ex
                  then (Inr ''I encountered an error processing your request. Please try again.'',
                        e')
                  else (Inl ex, e')
              | Inr t \<Rightarrow> (Inr t, e')))"

text \<open>
  The body of the \<^verbatim>\<open>try\<close> of \<^verbatim>\<open>generate_response\<close> from the \<^verbatim>\<open>for\<close> loop on:
  the rounds still to run (\<^verbatim>\<open>range(1, 3)\<close> at the start), then the final round.
\<close>

fun round_loop ::
  "'w AIGenerator \<Rightarrow> string \<Rightarrow> tool_def list option \<Rightarrow> 'w tool_manager option \<Rightarrow> nat list
     \<Rightarrow> message list \<Rightarrow> 'w env \<Rightarrow> (py_exception + string) \<times> 'w env"
where
  "round_loop self system_content tls tool_manager [] msgs e =
     execute_final_round self msgs system_content e"
| "round_loop self system_content tls tool_manager (round_num # rest) msgs e =
     (case execute_round self msgs system_content tls tool_manager round_num e of
        (Inl ex, e') \<Rightarrow> (Inl ex, e')
      | (Inr (Final t), e') \<Rightarrow> (Inr t, e')
      | (Inr (Continue resp), e') \<Rightarrow>
          (case execute_tools resp tool_manager e' of
             (Inl ex, e'') \<Rightarrow> (Inl ex, e'')
           | (Inr (Some (tr # trs)), e'') \<Rightarrow>
               round_loop self system_content tls tool_manager rest
                 (msgs @ [Message ''assistant'' (Blocks (content resp)),
                          Message ''user'' (ToolResults (tr # trs))]) e''
           | (Inr _, e'') \<Rightarrow>
               (Inr ''I encountered an error while processing your request.'', e'')))"

text \<open>
  The handler of the outer \<^verbatim>\<open>try\<close> of \<^verbatim>\<open>generate_response\<close>,
  \<^verbatim>\<open>except Exception as e: return self._fallback_response(..., str(e))\<close>: it takes an
  instance of \<^verbatim>\<open>Exception\<close>, and \<^verbatim>\<open>str(e)\<close> is evaluated before the fallback is
  called, outside any \<^verbatim>\<open>try\<close>.
\<close>

definition handle_exception ::
  "'w AIGenerator \<Rightarrow> string \<Rightarrow> string option \<Rightarrow> py_exception \<Rightarrow> 'w env
     \<Rightarrow> (py_exception + string) \<times> 'w env"
where
  "handle_exception self query conversation_history ex e =
     (if is_Exception ex
      then (case str_of ex of
              Inl ex' \<Rightarrow> (Inl ex', e)
            | Inr m \<Rightarrow> fallback_response self query conversation_history m e)
      else (Inl ex, e))"

text \<open>\<^verbatim>\<open>generate_response\<close>: the rounds, and the handler of the outer \<^verbatim>\<open>try\<close>.\<close>

definition generate_response ::
  "'w AIGenerator \<Rightarrow> string \<Rightarrow> string option \<Rightarrow> tool_def list option \<Rightarrow> 'w tool_manager option
     \<Rightarrow> 'w env \<Rightarrow> (py_exception + string) \<times> 'w env"
where
  "generate_response self query conversation_history tls tool_manager e =
     (case round_loop self (system_content_of self conversation_history) tls tool_manager
             [1, 2] [Message ''user'' (Text query)] e of
        (Inl ex, e') \<Rightarrow> handle_exception self query conversation_history ex e'
      | (Inr t, e') \<Rightarrow> (Inr t, e'))"

subsection \<open>Observations used in the statements\<close>

text \<open>The tool calls a reply asks for: id, name and input of its tool-use blocks, in order.\<close>

fun requested_calls :: "content_block list \<Rightarrow> (string \<times> string \<times> tool_input) list" where
  "requested_calls [] = []"
| "requested_calls (TextBlock t # rest) = requested_calls rest"
| "requested_calls (ToolUseBlock i n a # rest) = (i, n, a) # requested_calls rest"

text \<open>
  An exception that a handler of the orchestrator takes and can print: an instance of
  \<^verbatim>\<open>Exception\<close> on which \<^verbatim>\<open>str(e)\<close> returns.
\<close>

definition catchable :: "py_exception \<Rightarrow> bool" where
  "catchable ex = (is_Exception ex \<and> (case str_of ex of Inl ex' \<Rightarrow> False | Inr m \<Rightarrow> True))"

text \<open>
  The reference for a batch: the outcomes the tool manager itself gives when the requested
  calls are made one after the other, each with its own name and input, each from the world
  state the one before left; and the world state after the last.
\<close>

fun tool_outcomes ::
  "'w tool_manager \<Rightarrow> (string \<times> string \<times> tool_input) list \<Rightarrow> 'w
     \<Rightarrow> (py_exception + string) list \<times> 'w"
where
  "tool_outcomes tm [] w = ([], w)"
| "tool_outcomes tm ((i, n, a) # calls) w =
     (case tm n a w of
        (r, w1) \<Rightarrow> (case tool_outcomes tm calls w1 of (rs, w2) \<Rightarrow> (r # rs, w2)))"

text \<open>
  The result dict for a call with id \<open>i\<close> and a given outcome: the returned text, or the
  error text made from \<^verbatim>\<open>str(e)\<close> (for an exception that is printed).
\<close>

fun result_of :: "string \<Rightarrow> (py_exception + string) \<Rightarrow> tool_result" where
  "result_of i (Inr s) = \<lparr>result_type = ''tool_result'', tool_use_id = i, result_content = s\<rparr>"
| "result_of i (Inl ex) =
     \<lparr>result_type = ''tool_result'', tool_use_id = i,
      result_content = ''Tool execution error: '' @ (case str_of ex of Inl ex' \<Rightarrow> [] | Inr m \<Rightarrow> m)\<rparr>"

text \<open>The result dict and the trace entry of one requested call, given its outcome.\<close>

fun call_result :: "string \<times> string \<times> tool_input \<Rightarrow> py_exception + string \<Rightarrow> tool_result" where
  "call_result (i, n, a) r = result_of i r"

fun call_entry ::
  "string \<times> string \<times> tool_input \<Rightarrow> py_exception + string
     \<Rightarrow> string \<times> tool_input \<times> (py_exception + string)" where
  "call_entry (i, n, a) r = (n, a, r)"

text \<open>
  One complete tool round of the loop of \<^verbatim>\<open>generate_response\<close>: the model replies
  with tool use and the execution yields at least one result. The value is the message
  history and the environment the next round starts from; \<open>None\<close> when the round ends
  the sequence in any other way.
\<close>

definition tool_round ::
  "'w AIGenerator \<Rightarrow> string \<Rightarrow> tool_def list option \<Rightarrow> 'w tool_manager option \<Rightarrow> nat
     \<Rightarrow> message list \<Rightarrow> 'w env \<Rightarrow> (message list \<times> 'w env) option"
where
  "tool_round self system_content tls tool_manager round_num msgs e =
     (case execute_round self msgs system_content tls tool_manager round_num e of
        (Inr (Continue resp), e') \<Rightarrow>
          (case execute_tools resp tool_manager e' of
             (Inr (Some (tr # trs)), e'') \<Rightarrow>
               Some (msgs @ [Message ''assistant'' (Blocks (content resp)),
                             Message ''user'' (ToolResults (tr # trs))], e'')
           | _ \<Rightarrow> None)
      | _ \<Rightarrow> None)"

text \<open>
  What \<^verbatim>\<open>_fallback_response\<close> does, as a function of the outcome of its model call.
\<close>

definition fallback_result :: "py_exception + response \<Rightarrow> py_exception + string" where
  "fallback_result outcome =
     (case outcome of
        Inl ex \<Rightarrow>
          if is_Exception ex
          then Inr ''I encountered an error processing your request. Please try again.''
          else Inl ex
      | Inr resp \<Rightarrow>
          (case first_text resp of
             Inl ex \<Rightarrow> Inr ''I encountered an error processing your request. Please try again.''
           | Inr t \<Rightarrow> Inr t))"

subsection \<open>A scripted client and a tool manager for concrete runs\<close>

text \<open>
  The client of the test suite: a mock whose side effects are consumed one per call. The
  world state is the list of outcomes still to come; the request is ignored.
\<close>

definition scripted :: "(py_exception + response) list client_fn" where
  "scripted params w =
     (case w of
        [] \<Rightarrow> (Inl (Exception ''StopIteration''), [])
      | outcome # rest \<Rightarrow> (outcome, rest))"

definition mock_generator :: "(py_exception + response) list AIGenerator" where
  "mock_generator =
     \<lparr>client = scripted, self_model = ''test-model'', SYSTEM_PROMPT = ''You are an AI assistant''\<rparr>"

definition start_env :: "(py_exception + response) list \<Rightarrow> (py_exception + response) list env" where
  "start_env outcomes = \<lparr>world = outcomes, api_calls = [], tool_calls = []\<rparr>"

text \<open>
  Replies: a plain text completion, a reply that asks for one tool, a reply with stop
  reason \<^verbatim>\<open>tool_use\<close> but no tool-use block, a reply that asks for two tools, and a
  reply to the synthesis call that still asks for a tool after its text.
\<close>

definition text_reply :: "string \<Rightarrow> response" where
  "text_reply t = \<lparr>stop_reason = ''end_turn'', content = [TextBlock t]\<rparr>"

definition tool_use_reply :: response where
  "tool_use_reply =
     \<lparr>stop_reason = ''tool_use'',
      content = [ToolUseBlock ''tool_1'' ''search_course_content'' [(''query'', ''test'')]]\<rparr>"

definition no_block_reply :: response where
  "no_block_reply = \<lparr>stop_reason = ''tool_use'', content = [TextBlock ''Let me search'']\<rparr>"

definition two_tool_replies :: response where
  "two_tool_replies =
     \<lparr>stop_reason = ''tool_use'',
      content = [TextBlock ''Looking it up'',
                 ToolUseBlock ''tool_1'' ''get_course_outline'' [(''course_name'', ''MCP'')],
                 ToolUseBlock ''tool_2'' ''search_course_content'' [(''query'', ''test'')]]\<rparr>"

definition synthesis_reply :: response where
  "synthesis_reply =
     \<lparr>stop_reason = ''tool_use'',
      content = [TextBlock ''Final synthesis after max rounds.'',
                 ToolUseBlock ''tool_3'' ''search_course_content'' [(''query'', ''more'')]]\<rparr>"

text \<open>
  A tool manager that knows one tool and raises for any other name, and one whose other
  calls are interrupted from the keyboard.
\<close>

definition mock_tools :: "'w tool_manager" where
  "mock_tools nm args w =
     (if nm = ''search_course_content'' then (Inr ''Search result'', w)
      else (Inl (Exception ''Tool failed''), w))"

definition interrupted_tools :: "'w tool_manager" where
  "interrupted_tools nm args w =
     (if nm = ''search_course_content'' then (Inr ''Search result'', w)
      else (Inl (NotException ''KeyboardInterrupt''), w))"

text \<open>
  A client that fails on its first call and answers every later one; the world state is
  the number of calls made.
\<close>

definition flaky_client :: "nat client_fn" where
  "flaky_client params calls =
     (if calls = 0 then (Inl (Exception ''API Error''), Suc calls)
      else (Inr \<lparr>stop_reason = ''end_turn'', content = [TextBlock ''Fallback response'']\<rparr>,
            Suc calls))"

definition flaky_generator :: "nat AIGenerator" where
  "flaky_generator =
     \<lparr>client = flaky_client, self_model = ''test-model'',
      SYSTEM_PROMPT = ''You are an AI assistant''\<rparr>"

text \<open>
  \<^verbatim>\<open>generate_response\<close> and one tool round of it on the scripted client, with tools
  and the tool manager supplied.
\<close>

definition mock_run ::
  "(py_exception + response) list
     \<Rightarrow> (py_exception + string) \<times> (py_exception + response) list env"
where
  "mock_run outcomes =
     generate_response mock_generator ''q'' None (Some [''search_course_content''])
       (Some mock_tools) (start_env outcomes)"

definition mock_round ::
  "nat \<Rightarrow> message list \<Rightarrow> (py_exception + response) list env
     \<Rightarrow> (message list \<times> (py_exception + response) list env) option"
where
  "mock_round n msgs e =
     tool_round mock_generator (system_content_of mock_generator None)
       (Some [''search_course_content'']) (Some mock_tools) n msgs e"

section \<open>VectorStore: the metadata filter\<close>

text \<open>
  Modelled from the spec: the where-clause that \<^verbatim>\<open>VectorStore._build_filter\<close> returns
  (vector_store.py is not among the source files; test_vector_store.py pins the dicts).
  \<open>Eq key v\<close> is the one-entry dict \<^verbatim>\<open>{key: v}\<close>, \<open>And fs\<close> is
  \<^verbatim>\<open>{"$and": fs}\<close>.
\<close>

datatype metadata_value = StrValue string | IntValue int

datatype where_filter = Eq string metadata_value | And "where_filter list"

text \<open>
  Modelled from the spec: \<^verbatim>\<open>VectorStore._build_filter\<close>, missing from the source
  files. Section 4.2: absent both, no filter; one present, a single equality clause; both
  present, a conjunction of both clauses. An argument is absent when it is \<^verbatim>\<open>None\<close>.
\<close>

definition build_filter :: "string option \<Rightarrow> int option \<Rightarrow> where_filter option" where
  "build_filter course_title lesson_number =
     (case (case course_title of None \<Rightarrow> [] | Some t \<Rightarrow> [Eq ''course_title'' (StrValue t)])
           @ (case lesson_number of None \<Rightarrow> [] | Some n \<Rightarrow> [Eq ''lesson_number'' (IntValue n)]) of
        [] \<Rightarrow> None
      | [clause] \<Rightarrow> Some clause
      | clauses \<Rightarrow> Some (And clauses))"

section \<open>RAGSystem: folder ingestion\<close>

text \<open>
  Modelled from the spec: the value types of section 3 (models.py is not among the source
  files; the fixtures of conftest.py construct them with these fields).
\<close>

record Lesson =
  lesson_number :: int
  lesson_title :: string
  lesson_link :: "string option"

record Course =
  title :: string
  course_link :: "string option"
  instructor :: "string option"
  lessons :: "Lesson list"

record CourseChunk =
  chunk_content :: string
  chunk_course_title :: string
  chunk_lesson_number :: "int option"
  chunk_index :: nat

text \<open>
  Modelled from the spec: the two collections of \<^verbatim>\<open>VectorStore\<close> (section 4.2 and
  section 6), the catalog keyed by course title and the content keyed by course title and
  chunk index, with no link between them.
\<close>

record VectorStore =
  course_catalog :: "string \<rightharpoonup> Course"
  course_content :: "(string \<times> nat) \<rightharpoonup> CourseChunk"

text \<open>
  Modelled from the spec: the key of a chunk in the content collection (section 6).
\<close>

definition chunk_key :: "CourseChunk \<Rightarrow> string \<times> nat" where
  "chunk_key c = (chunk_course_title c, chunk_index c)"

text \<open>
  Modelled from the spec: \<^verbatim>\<open>VectorStore.add_course_metadata\<close>, an upsert by title.
\<close>

definition add_course_metadata :: "Course \<Rightarrow> VectorStore \<Rightarrow> VectorStore" where
  "add_course_metadata course vs =
     vs\<lparr>course_catalog := (course_catalog vs)(title course \<mapsto> course)\<rparr>"

text \<open>
  Modelled from the spec: \<^verbatim>\<open>VectorStore.add_course_content\<close>, an upsert of every
  chunk; the empty list changes nothing.
\<close>

fun add_course_content :: "CourseChunk list \<Rightarrow> VectorStore \<Rightarrow> VectorStore" where
  "add_course_content [] vs = vs"
| "add_course_content (c # cs) vs =
     add_course_content cs
       (vs\<lparr>course_content := (course_content vs)(chunk_key c \<mapsto> c)\<rparr>)"

text \<open>
  Modelled from the spec: \<^verbatim>\<open>VectorStore.clear_all_data\<close>, which drops and recreates
  both collections.
\<close>

definition clear_all_data :: "VectorStore \<Rightarrow> VectorStore" where
  "clear_all_data vs = \<lparr>course_catalog = Map.empty, course_content = Map.empty\<rparr>"

text \<open>
  Modelled from the spec: \<^verbatim>\<open>VectorStore.get_existing_course_titles\<close>, a pure read of
  the catalog.
\<close>

definition get_existing_course_titles :: "VectorStore \<Rightarrow> string set" where
  "get_existing_course_titles vs = dom (course_catalog vs)"

text \<open>
  Modelled from the spec: what \<^verbatim>\<open>DocumentProcessor.process_course_document\<close> makes
  of one candidate file of the folder: a course with its chunks, or nothing when the file
  cannot be parsed. The processor is deterministic, so a folder is the list of these.
\<close>

type_synonym parsed_document = "(Course \<times> CourseChunk list) option"

text \<open>
  Modelled from the spec: the loop of \<^verbatim>\<open>RAGSystem.add_course_folder\<close> (rag_system.py
  is not among the source files). Section 4.6: a file whose parsed course title already
  exists in the catalog is skipped; any other parsed file is written to both collections
  and counted.
\<close>

fun ingest_files :: "parsed_document list \<Rightarrow> nat \<Rightarrow> nat \<Rightarrow> VectorStore \<Rightarrow> nat \<times> nat \<times> VectorStore" where
  "ingest_files [] total_courses total_chunks vs = (total_courses, total_chunks, vs)"
| "ingest_files (None # files) total_courses total_chunks vs =
     ingest_files files total_courses total_chunks vs"
| "ingest_files (Some (course, chunks) # files) total_courses total_chunks vs =
     (if title course \<in> get_existing_course_titles vs
      then ingest_files files total_courses total_chunks vs
      else ingest_files files (total_courses + 1) (total_chunks + length chunks)
             (add_course_content chunks (add_course_metadata course vs)))"

text \<open>
  Modelled from the spec: \<^verbatim>\<open>RAGSystem.add_course_folder\<close>, which returns the number
  of courses and of chunks added. With \<^verbatim>\<open>clear_existing\<close> all stored data is purged
  first.
\<close>

definition add_course_folder :: "parsed_document list \<Rightarrow> bool \<Rightarrow> VectorStore \<Rightarrow> nat \<times> nat \<times> VectorStore" where
  "add_course_folder files clear_existing vs =
     ingest_files files 0 0 (if clear_existing then clear_all_data vs else vs)"

text \<open>
  The reference for an ingestion: the documents of a folder that are not skipped, given the
  titles already in the catalog: those that parse and whose title is neither in the catalog
  nor that of an earlier file of the folder; and all their chunks, in order.
\<close>

fun new_documents :: "string set \<Rightarrow> parsed_document list \<Rightarrow> (Course \<times> CourseChunk list) list" where
  "new_documents seen [] = []"
| "new_documents seen (None # files) = new_documents seen files"
| "new_documents seen (Some (course, chunks) # files) =
     (if title course \<in> seen then new_documents seen files
      else (course, chunks) # new_documents (insert (title course) seen) files)"

definition all_chunks :: "(Course \<times> CourseChunk list) list \<Rightarrow> CourseChunk list" where
  "all_chunks docs = concat (map snd docs)"

text \<open>
  The course titles of the files of a folder that parse, in order.
\<close>

fun parsed_titles :: "parsed_document list \<Rightarrow> string list" where
  "parsed_titles [] = []"
| "parsed_titles (None # files) = parsed_titles files"
| "parsed_titles (Some (course, chunks) # files) = title course # parsed_titles files"

text \<open>
  A folder for concrete runs: the same course twice and a file that does not parse.
\<close>

definition sample_course :: Course where
  "sample_course =
     \<lparr>title = ''Existing Course'', course_link = Some ''https://example.com/existing'',
      instructor = Some ''Existing Instructor'', lessons = [\<lparr>lesson_number = 0, lesson_title = ''Existing Lesson'', lesson_link = None\<rparr>]\<rparr>"

definition sample_chunks :: "CourseChunk list" where
  "sample_chunks =
     [\<lparr>chunk_content = ''This is existing content.'', chunk_course_title = ''Existing Course'',
       chunk_lesson_number = Some 0, chunk_index = 0\<rparr>,
      \<lparr>chunk_content = ''More content.'', chunk_course_title = ''Existing Course'',
       chunk_lesson_number = Some 0, chunk_index = 1\<rparr>]"

definition sample_folder :: "parsed_document list" where
  "sample_folder = [Some (sample_course, sample_chunks), None, Some (sample_course, sample_chunks)]"

definition empty_store :: VectorStore where
  "empty_store = \<lparr>course_catalog = Map.empty, course_content = Map.empty\<rparr>"

section \<open>DocumentProcessor: chunking a short text\<close>

text \<open>
  Modelled from the spec: the characters that count as whitespace in
  \<^verbatim>\<open>DocumentProcessor.chunk_text\<close> (document_processor.py is not among the source
  files): space, tab, line feed, vertical tab, form feed, carriage return.
\<close>

definition is_whitespace :: "char \<Rightarrow> bool" where
  "is_whitespace c \<longleftrightarrow>
     c \<in> {CHR '' '', CHR 0x09, CHR 0x0A, CHR 0x0B, CHR 0x0C, CHR 0x0D}"

text \<open>
  Modelled from the spec: the normalisation step of \<^verbatim>\<open>chunk_text\<close>, which turns
  every run of whitespace into a single space. \<open>in_run\<close> tells that the previous
  character was whitespace.
\<close>

fun collapse :: "bool \<Rightarrow> string \<Rightarrow> string" where
  "collapse in_run [] = []"
| "collapse in_run (c # cs) =
     (if is_whitespace c
      then (if in_run then collapse True cs else CHR '' '' # collapse True cs)
      else c # collapse False cs)"

definition normalize_whitespace :: "string \<Rightarrow> string" where
  "normalize_whitespace text = collapse False text"

text \<open>
  Modelled from the spec: \<^verbatim>\<open>DocumentProcessor.chunk_text\<close>. Section 4.1: if the
  normalised length is at most the chunk size, the result is one chunk equal to the
  normalised text. The splitting of a longer text on sentence boundaries is left open by
  the spec and is a parameter here.
\<close>

definition chunk_text ::
  "(string \<Rightarrow> nat \<Rightarrow> nat \<Rightarrow> string list) \<Rightarrow> string \<Rightarrow> nat \<Rightarrow> nat \<Rightarrow> string list"
where
  "chunk_text split_sentences text chunk_size overlap =
     (let normalized = normalize_whitespace text
      in if length normalized \<le> chunk_size then [normalized]
         else split_sentences normalized chunk_size overlap)"

text \<open>
  A splitter for concrete runs, which cuts the text into pieces of the chunk size and
  ignores the overlap.
\<close>

fun fixed_width_split :: "string \<Rightarrow> nat \<Rightarrow> nat \<Rightarrow> string list" where
  "fixed_width_split text chunk_size overlap =
     map (\<lambda>i. take chunk_size (drop (i * chunk_size) text))
       [0 ..< (length text + chunk_size - 1) div chunk_size]"

text \<open>
  A text in which each whitespace character is a space and no two spaces are adjacent.
\<close>

fun single_spaced :: "string \<Rightarrow> bool" where
  "single_spaced [] = True"
| "single_spaced [c] = (is_whitespace c = (c = CHR '' ''))"
| "single_spaced (a # b # cs) =
     ((is_whitespace a = (a = CHR '' '')) \<and> \<not> (a = CHR '' '' \<and> b = CHR '' '')
      \<and> single_spaced (b # cs))"

section \<open>What each method adds to the trace\<close>

lemma messages_create_trace:
  assumes "messages_create self site params e = (r, e')"
  shows "api_calls e' = api_calls e @ [(site, params, r)]"
    and "tool_calls e' = tool_calls e"
    and "client self params (world e) = (r, world e')"
  using assms by (auto simp: messages_create_def split: prod.splits)

lemma execute_tool_Some:
  assumes "tm n a (world e) = (r, w1)"
  shows "execute_tool (Some tm) n a e
           = (r, e\<lparr>world := w1, tool_calls := tool_calls e @ [(n, a, r)]\<rparr>)"
  using assms by (simp add: execute_tool_def)

lemma execute_tool_api:
  assumes "execute_tool tm n a e = (r, e')"
  shows "api_calls e' = api_calls e"
  using assms by (cases tm) (auto simp: execute_tool_def split: prod.splits)

lemma first_text_is_Exception:
  "first_text resp = Inl ex \<Longrightarrow> catchable ex"
  by (auto simp: first_text_def catchable_def split: list.splits content_block.splits)

lemma catchable_is_Exception: "catchable ex \<Longrightarrow> is_Exception ex"
  by (simp add: catchable_def)

lemma catchable_str_of: "catchable ex \<Longrightarrow> \<exists>m. str_of ex = Inr m"
  by (cases "str_of ex") (simp_all add: catchable_def)

lemma execute_blocks_api:
  "execute_blocks tm blocks acc e = (r, e') \<Longrightarrow> api_calls e' = api_calls e"
proof (induction blocks arbitrary: acc e)
  case Nil
  then show ?case by simp
next
  case (Cons b rest)
  show ?case
  proof (cases b)
    case (TextBlock t)
    with Cons show ?thesis by simp
  next
    case (ToolUseBlock i n a)
    obtain x e1 where x: "execute_tool tm n a e = (x, e1)"
      by (cases "execute_tool tm n a e")
    have a1: "api_calls e1 = api_calls e" by (rule execute_tool_api [OF x])
    show ?thesis
    proof (cases x)
      case (Inr s)
      with Cons.prems ToolUseBlock x
      have "execute_blocks tm rest
              (acc @ [\<lparr>result_type = ''tool_result'', tool_use_id = i, result_content = s\<rparr>]) e1
            = (r, e')" by simp
      from Cons.IH [OF this] a1 show ?thesis by simp
    next
      case (Inl ex)
      show ?thesis
      proof (cases "is_Exception ex")
        case False
        with Cons.prems ToolUseBlock x Inl have "e' = e1" by simp
        with a1 show ?thesis by simp
      next
        case True
        show ?thesis
        proof (cases "str_of ex")
          case (Inl ex')
          with Cons.prems ToolUseBlock x \<open>x = Inl ex\<close> True have "e' = e1" by simp
          with a1 show ?thesis by simp
        next
          case (Inr m)
          with Cons.prems ToolUseBlock x \<open>x = Inl ex\<close> True
          have "execute_blocks tm rest
              (acc @ [\<lparr>result_type = ''tool_result'', tool_use_id = i,
                        result_content = ''Tool execution error: '' @ m\<rparr>]) e1
            = (r, e')" by simp
          from Cons.IH [OF this] a1 show ?thesis by simp
        qed
      qed
    qed
  qed
qed

lemma execute_blocks_length:
  "execute_blocks tm blocks acc e = (Inr res, e') \<Longrightarrow>
     length res = length acc + length (requested_calls blocks)"
proof (induction blocks arbitrary: acc e)
  case Nil
  then show ?case by simp
next
  case (Cons b rest)
  show ?case
  proof (cases b)
    case (TextBlock t)
    with Cons show ?thesis by simp
  next
    case (ToolUseBlock i n a)
    obtain x e1 where x: "execute_tool tm n a e = (x, e1)"
      by (cases "execute_tool tm n a e")
    show ?thesis
    proof (cases x)
      case (Inr s)
      with Cons.prems ToolUseBlock x
      have "execute_blocks tm rest
              (acc @ [\<lparr>result_type = ''tool_result'', tool_use_id = i, result_content = s\<rparr>]) e1
            = (Inr res, e')" by simp
      from Cons.IH [OF this] ToolUseBlock show ?thesis by simp
    next
      case (Inl ex)
      with Cons.prems ToolUseBlock x obtain m where
        "execute_blocks tm rest
              (acc @ [\<lparr>result_type = ''tool_result'', tool_use_id = i,
                        result_content = ''Tool execution error: '' @ m\<rparr>]) e1
            = (Inr res, e')"
        by (auto split: if_splits sum.splits)
      from Cons.IH [OF this] ToolUseBlock show ?thesis by simp
    qed
  qed
qed

lemma execute_tools_api:
  assumes "execute_tools resp tm e = (res, e')"
  shows "api_calls e' = api_calls e"
proof (cases "stop_reason resp = ''tool_use''")
  case False
  with assms show ?thesis by (simp add: execute_tools_def)
next
  case True
  obtain x e1 where b: "execute_blocks tm (content resp) [] e = (x, e1)"
    by (cases "execute_blocks tm (content resp) [] e")
  have "e' = e1"
    using assms True b by (cases x) (simp_all add: execute_tools_def)
  with execute_blocks_api [OF b] show ?thesis by simp
qed

lemma execute_round_trace:
  assumes "execute_round self msgs sc tls tm n e = (r, e')"
  shows "\<exists>outcome. api_calls e' = api_calls e @ [(RoundCall n, round_params self msgs sc tls n, outcome)]
           \<and> tool_calls e' = tool_calls e"
proof -
  obtain outcome e1 where c: "messages_create self (RoundCall n) (round_params self msgs sc tls n) e = (outcome, e1)"
    by (cases "messages_create self (RoundCall n) (round_params self msgs sc tls n) e")
  have "e' = e1"
    using assms c by (auto simp: execute_round_def split: sum.splits if_splits)
  with messages_create_trace [OF c] show ?thesis by blast
qed

lemma execute_final_round_trace:
  assumes "execute_final_round self msgs sc e = (r, e')"
  shows "\<exists>outcome. api_calls e' = api_calls e @ [(SynthesisCall, make_params self msgs sc None None, outcome)]
           \<and> tool_calls e' = tool_calls e"
proof -
  obtain outcome e1 where c: "messages_create self SynthesisCall (make_params self msgs sc None None) e = (outcome, e1)"
    by (cases "messages_create self SynthesisCall (make_params self msgs sc None None) e")
  have "e' = e1"
    using assms c by (auto simp: execute_final_round_def split: sum.splits)
  with messages_create_trace [OF c] show ?thesis by blast
qed

lemma fallback_response_trace:
  "\<exists>outcome e'. fallback_response self q h err e = (fallback_result outcome, e')
      \<and> api_calls e' = api_calls e
           @ [(FallbackCall, make_params self [Message ''user'' (Text q)] (system_content_of self h) None None, outcome)]
      \<and> tool_calls e' = tool_calls e
      \<and> client self (make_params self [Message ''user'' (Text q)] (system_content_of self h) None None) (world e)
           = (outcome, world e')"
proof -
  let ?p = "make_params self [Message ''user'' (Text q)] (system_content_of self h) None None"
  obtain outcome e1 where c: "messages_create self FallbackCall ?p e = (outcome, e1)"
    by (cases "messages_create self FallbackCall ?p e")
  have "fallback_response self q h err e = (fallback_result outcome, e1)"
    using c
    by (auto simp: fallback_response_def fallback_result_def split: sum.splits
          dest: first_text_is_Exception [THEN catchable_is_Exception])
  with messages_create_trace [OF c] show ?thesis by blast
qed

lemma handle_exception_not_Exception:
  "\<not> is_Exception ex \<Longrightarrow> handle_exception self q h ex e = (Inl ex, e)"
  by (simp add: handle_exception_def)

lemma handle_exception_str_raises:
  "is_Exception ex \<Longrightarrow> str_of ex = Inl ex' \<Longrightarrow> handle_exception self q h ex e = (Inl ex', e)"
  by (simp add: handle_exception_def)

lemma handle_exception_fallback:
  "is_Exception ex \<Longrightarrow> str_of ex = Inr m \<Longrightarrow>
     handle_exception self q h ex e = fallback_response self q h m e"
  by (simp add: handle_exception_def)

lemma handle_exception_trace:
  assumes "handle_exception self q h ex e = (r, e')"
  shows "\<exists>more. api_calls e' = api_calls e @ more \<and> (more = [] \<or> map fst more = [FallbackCall])"
proof (cases "is_Exception ex")
  case False
  from handle_exception_not_Exception [OF False, of self q h e] assms have "e' = e" by simp
  then have "api_calls e' = api_calls e @ [] \<and> ([] = [] \<or> map fst [] = [FallbackCall])" by simp
  then show ?thesis by (rule exI)
next
  case True
  show ?thesis
  proof (cases "str_of ex")
    case (Inl ex')
    from handle_exception_str_raises [OF True Inl, of self q h e] assms have "e' = e" by simp
    then have "api_calls e' = api_calls e @ [] \<and> ([] = [] \<or> map fst [] = [FallbackCall])" by simp
    then show ?thesis by (rule exI)
  next
    case (Inr m)
    let ?p = "make_params self [Message ''user'' (Text q)] (system_content_of self h) None None"
    from handle_exception_fallback [OF True Inr, of self q h e] assms
    have f: "fallback_response self q h m e = (r, e')" by simp
    obtain outcome e2 where o: "fallback_response self q h m e = (fallback_result outcome, e2)"
      "api_calls e2 = api_calls e @ [(FallbackCall, ?p, outcome)]"
      using fallback_response_trace [of self q h m e] by (elim exE conjE)
    from f o(1) have "e2 = e'" by simp
    with o(2) have "api_calls e' = api_calls e @ [(FallbackCall, ?p, outcome)]
        \<and> ([(FallbackCall, ?p, outcome)] = [] \<or> map fst [(FallbackCall, ?p, outcome)] = [FallbackCall])"
      by simp
    then show ?thesis by (rule exI)
  qed
qed

lemma round_loop_sites:
  assumes "round_loop self sc tls tm rs msgs e = (r, e')"
  shows "\<exists>new. api_calls e' = api_calls e @ new
           \<and> ((\<exists>k. 0 < k \<and> k \<le> length rs \<and> map fst new = map RoundCall (take k rs))
              \<or> map fst new = map RoundCall rs @ [SynthesisCall])"
  using assms
proof (induction rs arbitrary: msgs e)
  case Nil
  then have "execute_final_round self msgs sc e = (r, e')" by simp
  from execute_final_round_trace [OF this] obtain outcome where
    "api_calls e' = api_calls e @ [(SynthesisCall, make_params self msgs sc None None, outcome)]"
    by blast
  moreover have "map fst [(SynthesisCall, make_params self msgs sc None None, outcome)]
      = map RoundCall [] @ [SynthesisCall]" by simp
  ultimately show ?case by blast
next
  case (Cons n rest)
  obtain x e1 where x: "execute_round self msgs sc tls tm n e = (x, e1)"
    by (cases "execute_round self msgs sc tls tm n e")
  from execute_round_trace [OF x] obtain outcome where
    l1: "api_calls e1 = api_calls e @ [(RoundCall n, round_params self msgs sc tls n, outcome)]"
    by blast
  have one: "\<exists>k. 0 < k \<and> k \<le> length (n # rest) \<and> map fst [(RoundCall n, round_params self msgs sc tls n, outcome)] = map RoundCall (take k (n # rest))"
    by (rule exI [of _ 1]) simp
  show ?case
  proof (cases x)
    case (Inl ex)
    with Cons.prems x have "e' = e1" by simp
    with l1 one show ?thesis by blast
  next
    case (Inr rr)
    show ?thesis
    proof (cases rr)
      case (Final t)
      with Inr Cons.prems x have "e' = e1" by simp
      with l1 one show ?thesis by blast
    next
      case (Continue resp)
      obtain res e2 where t: "execute_tools resp tm e1 = (res, e2)"
        by (cases "execute_tools resp tm e1")
      have l2: "api_calls e2 = api_calls e1" by (rule execute_tools_api [OF t])
      show ?thesis
      proof (cases "\<exists>tr trs. res = Inr (Some (tr # trs))")
        case True
        then obtain tr trs where res: "res = Inr (Some (tr # trs))" by blast
        have "round_loop self sc tls tm rest
                (msgs @ [Message ''assistant'' (Blocks (content resp)), Message ''user'' (ToolResults (tr # trs))]) e2 = (r, e')"
          using Cons.prems x Inr Continue t res by simp
        from Cons.IH [OF this] obtain new where n:
          "api_calls e' = api_calls e2 @ new"
          "(\<exists>k. 0 < k \<and> k \<le> length rest \<and> map fst new = map RoundCall (take k rest))
              \<or> map fst new = map RoundCall rest @ [SynthesisCall]" by blast
        from n(2) show ?thesis
        proof
          assume "\<exists>k. 0 < k \<and> k \<le> length rest \<and> map fst new = map RoundCall (take k rest)"
          then obtain k where k: "0 < k" "k \<le> length rest" "map fst new = map RoundCall (take k rest)" by blast
          have "0 < Suc k \<and> Suc k \<le> length (n # rest) \<and>
                map fst ((RoundCall n, round_params self msgs sc tls n, outcome) # new) = map RoundCall (take (Suc k) (n # rest))"
            using k by simp
          moreover have "api_calls e' = api_calls e @ (RoundCall n, round_params self msgs sc tls n, outcome) # new"
            using n(1) l1 l2 by simp
          ultimately show ?thesis by blast
        next
          assume "map fst new = map RoundCall rest @ [SynthesisCall]"
          then have "map fst ((RoundCall n, round_params self msgs sc tls n, outcome) # new) = map RoundCall (n # rest) @ [SynthesisCall]"
            by simp
          moreover have "api_calls e' = api_calls e @ (RoundCall n, round_params self msgs sc tls n, outcome) # new"
            using n(1) l1 l2 by simp
          ultimately show ?thesis by blast
        qed
      next
        case False
        then have "e' = e2"
          using Cons.prems x Inr Continue t
          by (cases res) (auto split: list.splits option.splits)
        with l1 l2 have "api_calls e' = api_calls e @ [(RoundCall n, round_params self msgs sc tls n, outcome)]"
          by simp
        with one show ?thesis by blast
      qed
    qed
  qed
qed

lemma take_12: "0 < k \<Longrightarrow> k \<le> 2 \<Longrightarrow> take k [a, b] = [a] \<or> take k [a, b] = [a, b]"
proof -
  assume "0 < k" "k \<le> 2"
  then have "k = Suc 0 \<or> k = Suc (Suc 0)" by arith
  then show ?thesis by (elim disjE) simp_all
qed

lemma round_loop_sites_12:
  assumes "round_loop self sc tls tm [1, 2] msgs e = (r, e')"
  shows "\<exists>new. api_calls e' = api_calls e @ new
           \<and> map fst new \<in> {[RoundCall 1], [RoundCall 1, RoundCall 2],
                              [RoundCall 1, RoundCall 2, SynthesisCall]}"
proof -
  have "\<exists>new. api_calls e' = api_calls e @ new
           \<and> ((\<exists>k. 0 < k \<and> k \<le> length [1::nat, 2] \<and> map fst new = map RoundCall (take k [1, 2]))
              \<or> map fst new = map RoundCall [1, 2] @ [SynthesisCall])"
    by (rule round_loop_sites [OF assms])
  then obtain new where n1: "api_calls e' = api_calls e @ new"
    and n2: "(\<exists>k. 0 < k \<and> k \<le> length [1::nat, 2] \<and> map fst new = map RoundCall (take k [1, 2]))
              \<or> map fst new = map RoundCall [1, 2] @ [SynthesisCall]"
    by (elim exE conjE)
  from n2 have "map fst new \<in> {[RoundCall 1], [RoundCall 1, RoundCall 2],
                              [RoundCall 1, RoundCall 2, SynthesisCall]}"
  proof (elim disjE exE conjE)
    fix k :: nat
    assume k: "0 < k" "k \<le> length [1::nat, 2]" and m: "map fst new = map RoundCall (take k [1, 2])"
    from k(2) have k2: "k \<le> 2" by simp
    from take_12 [OF k(1) k2, of "1::nat" "2::nat"] m show ?thesis by (elim disjE) simp_all
  next
    assume "map fst new = map RoundCall [1, 2] @ [SynthesisCall]"
    then show ?thesis by simp
  qed
  with n1 show ?thesis by (intro exI conjI)
qed

lemma generate_response_unfold:
  assumes "round_loop self (system_content_of self h) tls tm [1, 2] [Message ''user'' (Text q)] e = (r, e1)"
  shows "generate_response self q h tls tm e =
           (case r of Inl ex \<Rightarrow> handle_exception self q h ex e1 | Inr t \<Rightarrow> (Inr t, e1))"
  using assms by (simp add: generate_response_def split: sum.splits)

lemma generate_response_sites:
  "\<exists>r e' new. generate_response self q h tls tm e = (r, e')
      \<and> api_calls e' = api_calls e @ new
      \<and> map fst new \<in> {[RoundCall 1], [RoundCall 1, RoundCall 2],
                         [RoundCall 1, RoundCall 2, SynthesisCall],
                         [RoundCall 1, FallbackCall], [RoundCall 1, RoundCall 2, FallbackCall],
                         [RoundCall 1, RoundCall 2, SynthesisCall, FallbackCall]}"
proof -
  obtain r e1 where rl:
    "round_loop self (system_content_of self h) tls tm [1, 2] [Message ''user'' (Text q)] e = (r, e1)"
    by (cases "round_loop self (system_content_of self h) tls tm [1, 2] [Message ''user'' (Text q)] e")
  from round_loop_sites_12 [OF rl] obtain new where n:
    "api_calls e1 = api_calls e @ new"
    "map fst new \<in> {[RoundCall 1], [RoundCall 1, RoundCall 2],
                              [RoundCall 1, RoundCall 2, SynthesisCall]}"
    by (elim exE conjE)
  show ?thesis
  proof (cases r)
    case (Inr t)
    then have "generate_response self q h tls tm e = (Inr t, e1)"
      using generate_response_unfold [OF rl] by simp
    moreover from n(2) have "map fst new \<in> {[RoundCall 1], [RoundCall 1, RoundCall 2],
                         [RoundCall 1, RoundCall 2, SynthesisCall],
                         [RoundCall 1, FallbackCall], [RoundCall 1, RoundCall 2, FallbackCall],
                         [RoundCall 1, RoundCall 2, SynthesisCall, FallbackCall]}" by blast
    ultimately show ?thesis using n(1) by (intro exI conjI)
  next
    case (Inl ex)
    then have g: "generate_response self q h tls tm e = handle_exception self q h ex e1"
      using generate_response_unfold [OF rl] by simp
    obtain r2 e2 where hx: "handle_exception self q h ex e1 = (r2, e2)"
      by (cases "handle_exception self q h ex e1")
    from handle_exception_trace [OF hx] obtain more where m:
      "api_calls e2 = api_calls e1 @ more" "more = [] \<or> map fst more = [FallbackCall]"
      by (elim exE conjE)
    have a: "api_calls e2 = api_calls e @ (new @ more)"
      using m(1) n(1) by simp
    have "map fst (new @ more) = map fst new \<or> map fst (new @ more) = map fst new @ [FallbackCall]"
      using m(2) by auto
    with n(2) have b: "map fst (new @ more) \<in> {[RoundCall 1], [RoundCall 1, RoundCall 2],
                         [RoundCall 1, RoundCall 2, SynthesisCall],
                         [RoundCall 1, FallbackCall], [RoundCall 1, RoundCall 2, FallbackCall],
                         [RoundCall 1, RoundCall 2, SynthesisCall, FallbackCall]}"
      by (elim insertE emptyE disjE) simp_all
    from g hx have "generate_response self q h tls tm e = (r2, e2)" by simp
    then show ?thesis using a b by (intro exI conjI)
  qed
qed

section \<open>The rounds\<close>

lemma round_loop_final:
  assumes "execute_round self msgs sc tls tm n e = (Inr (Final t), e1)"
  shows "round_loop self sc tls tm (n # rest) msgs e = (Inr t, e1)"
  using assms by simp

lemma round_loop_no_results:
  assumes "execute_round self msgs sc tls tm n e = (Inr (Continue resp), e1)"
    and "execute_tools resp tm e1 = (Inr None, e2)"
  shows "round_loop self sc tls tm (n # rest) msgs e
           = (Inr ''I encountered an error while processing your request.'', e2)"
  using assms by simp

lemma tool_round_SomeD:
  assumes "tool_round self sc tls tm n msgs e = Some (msgs', e')"
  shows "\<exists>resp e1 tr trs.
            execute_round self msgs sc tls tm n e = (Inr (Continue resp), e1)
          \<and> execute_tools resp tm e1 = (Inr (Some (tr # trs)), e')
          \<and> msgs' = msgs @ [Message ''assistant'' (Blocks (content resp)),
                              Message ''user'' (ToolResults (tr # trs))]"
proof -
  obtain x e1 where x: "execute_round self msgs sc tls tm n e = (x, e1)"
    by (cases "execute_round self msgs sc tls tm n e")
  from assms x obtain resp where r: "x = Inr (Continue resp)"
    by (cases x; cases "projr x") (auto simp: tool_round_def)
  obtain y e2 where y: "execute_tools resp tm e1 = (y, e2)"
    by (cases "execute_tools resp tm e1")
  from assms x r y obtain tr trs where t: "y = Inr (Some (tr # trs))"
    by (cases y; cases "projr y"; cases "the (projr y)") (auto simp: tool_round_def)
  from assms x r y t have "e' = e2"
    and "msgs' = msgs @ [Message ''assistant'' (Blocks (content resp)),
                              Message ''user'' (ToolResults (tr # trs))]"
    by (simp_all add: tool_round_def)
  with x r y t show ?thesis by blast
qed

lemma round_loop_tool_round:
  assumes "tool_round self sc tls tm n msgs e = Some (msgs', e')"
  shows "round_loop self sc tls tm (n # rest) msgs e = round_loop self sc tls tm rest msgs' e'"
proof -
  from tool_round_SomeD [OF assms] obtain resp e1 tr trs where
    "execute_round self msgs sc tls tm n e = (Inr (Continue resp), e1)"
    "execute_tools resp tm e1 = (Inr (Some (tr # trs)), e')"
    "msgs' = msgs @ [Message ''assistant'' (Blocks (content resp)),
                              Message ''user'' (ToolResults (tr # trs))]"
    by (elim exE conjE)
  then show ?thesis by simp
qed

lemma tool_round_trace:
  assumes "tool_round self sc tls tm n msgs e = Some (msgs', e')"
  shows "\<exists>outcome. api_calls e' = api_calls e @ [(RoundCall n, round_params self msgs sc tls n, outcome)]"
    and "\<exists>blocks tr trs. msgs' = msgs @ [Message ''assistant'' (Blocks blocks),
                                          Message ''user'' (ToolResults (tr # trs))]"
proof -
  from tool_round_SomeD [OF assms] obtain resp e1 tr trs where
    r: "execute_round self msgs sc tls tm n e = (Inr (Continue resp), e1)"
    and t: "execute_tools resp tm e1 = (Inr (Some (tr # trs)), e')"
    and m: "msgs' = msgs @ [Message ''assistant'' (Blocks (content resp)),
                             Message ''user'' (ToolResults (tr # trs))]"
    by (elim exE conjE)
  from execute_round_trace [OF r] execute_tools_api [OF t]
  show "\<exists>outcome. api_calls e' = api_calls e @ [(RoundCall n, round_params self msgs sc tls n, outcome)]"
    by (elim exE conjE) simp
  from m show "\<exists>blocks tr trs. msgs' = msgs @ [Message ''assistant'' (Blocks blocks),
                                          Message ''user'' (ToolResults (tr # trs))]"
    by blast
qed

lemma two_tool_rounds:
  assumes t1: "tool_round self (system_content_of self h) tls tm 1 [Message ''user'' (Text q)] e
                 = Some (msgs1, e2)"
    and t2: "tool_round self (system_content_of self h) tls tm 2 msgs1 e2 = Some (msgs2, e4)"
  shows "round_loop self (system_content_of self h) tls tm [1, 2] [Message ''user'' (Text q)] e
           = execute_final_round self msgs2 (system_content_of self h) e4"
    and "length (api_calls e4) = length (api_calls e) + 2"
    and "\<exists>b1 r1 b2 r2. msgs2 = [Message ''user'' (Text q),
            Message ''assistant'' (Blocks b1), Message ''user'' (ToolResults r1),
            Message ''assistant'' (Blocks b2), Message ''user'' (ToolResults r2)]"
proof -
  have "round_loop self (system_content_of self h) tls tm [1, 2] [Message ''user'' (Text q)] e
          = round_loop self (system_content_of self h) tls tm [2] msgs1 e2"
    by (rule round_loop_tool_round [OF t1])
  also have "\<dots> = round_loop self (system_content_of self h) tls tm [] msgs2 e4"
    by (rule round_loop_tool_round [OF t2])
  finally show "round_loop self (system_content_of self h) tls tm [1, 2] [Message ''user'' (Text q)] e
           = execute_final_round self msgs2 (system_content_of self h) e4"
    by simp
  from tool_round_trace(1) [OF t1] tool_round_trace(1) [OF t2]
  show "length (api_calls e4) = length (api_calls e) + 2"
    by (elim exE) simp
  from tool_round_trace(2) [OF t1] tool_round_trace(2) [OF t2]
  show "\<exists>b1 r1 b2 r2. msgs2 = [Message ''user'' (Text q),
            Message ''assistant'' (Blocks b1), Message ''user'' (ToolResults r1),
            Message ''assistant'' (Blocks b2), Message ''user'' (ToolResults r2)]"
    by (elim exE) simp
qed

text \<open>
  What the hypotheses of the round theorems mean, with a tool manager supplied: a round ends
  with a final text exactly when the model's reply has another stop reason than
  \<^verbatim>\<open>tool_use\<close> and a text as its first block; a round is a complete tool round exactly
  when the reply has stop reason \<^verbatim>\<open>tool_use\<close> and at least one tool-use block, and
  the execution of its tool calls returns.
\<close>

lemma execute_round_Final_iff:
  "execute_round self msgs sc tls (Some tm) n e = (Inr (Final t), e1) \<longleftrightarrow>
     (\<exists>resp. messages_create self (RoundCall n) (round_params self msgs sc tls n) e = (Inr resp, e1)
        \<and> stop_reason resp \<noteq> ''tool_use'' \<and> first_text resp = Inr t)"
  by (cases "messages_create self (RoundCall n) (round_params self msgs sc tls n) e")
     (auto simp: execute_round_def split: sum.splits)

lemma execute_round_Continue_iff:
  "execute_round self msgs sc tls (Some tm) n e = (Inr (Continue resp), e1) \<longleftrightarrow>
     messages_create self (RoundCall n) (round_params self msgs sc tls n) e = (Inr resp, e1)
        \<and> stop_reason resp = ''tool_use''"
  by (cases "messages_create self (RoundCall n) (round_params self msgs sc tls n) e")
     (auto simp: execute_round_def split: sum.splits)

lemma execute_tools_Some_calls:
  assumes "execute_tools resp tm e = (Inr (Some trs), e')"
  shows "requested_calls (content resp) \<noteq> []" and "trs \<noteq> []"
    and "stop_reason resp = ''tool_use''"
proof -
  from assms show s: "stop_reason resp = ''tool_use''"
    by (auto simp: execute_tools_def split: if_splits)
  obtain x e1 where b: "execute_blocks tm (content resp) [] e = (x, e1)"
    by (cases "execute_blocks tm (content resp) [] e")
  from assms s b have x: "x = Inr trs" and ne: "trs \<noteq> []"
    by (cases x; auto simp: execute_tools_def split: if_splits)+
  from ne show "trs \<noteq> []" .
  from execute_blocks_length [OF b [unfolded x]] ne
  show "requested_calls (content resp) \<noteq> []" by auto
qed

lemma tool_round_Some_iff:
  "tool_round self sc tls (Some tm) n msgs e = Some (msgs', e') \<longleftrightarrow>
     (\<exists>resp e1 trs.
          messages_create self (RoundCall n) (round_params self msgs sc tls n) e = (Inr resp, e1)
        \<and> stop_reason resp = ''tool_use''
        \<and> requested_calls (content resp) \<noteq> []
        \<and> execute_tools resp (Some tm) e1 = (Inr (Some trs), e')
        \<and> msgs' = msgs @ [Message ''assistant'' (Blocks (content resp)),
                            Message ''user'' (ToolResults trs)])"
proof
  assume "tool_round self sc tls (Some tm) n msgs e = Some (msgs', e')"
  from tool_round_SomeD [OF this] obtain resp e1 tr trs where
    r: "execute_round self msgs sc tls (Some tm) n e = (Inr (Continue resp), e1)"
    and t: "execute_tools resp (Some tm) e1 = (Inr (Some (tr # trs)), e')"
    and m: "msgs' = msgs @ [Message ''assistant'' (Blocks (content resp)),
                             Message ''user'' (ToolResults (tr # trs))]"
    by (elim exE conjE)
  from r have c: "messages_create self (RoundCall n) (round_params self msgs sc tls n) e = (Inr resp, e1)"
    and s: "stop_reason resp = ''tool_use''"
    by (simp_all add: execute_round_Continue_iff)
  from execute_tools_Some_calls(1) [OF t] c s t m
  show "\<exists>resp e1 trs.
          messages_create self (RoundCall n) (round_params self msgs sc tls n) e = (Inr resp, e1)
        \<and> stop_reason resp = ''tool_use''
        \<and> requested_calls (content resp) \<noteq> []
        \<and> execute_tools resp (Some tm) e1 = (Inr (Some trs), e')
        \<and> msgs' = msgs @ [Message ''assistant'' (Blocks (content resp)),
                            Message ''user'' (ToolResults trs)]"
    by blast
next
  assume "\<exists>resp e1 trs.
          messages_create self (RoundCall n) (round_params self msgs sc tls n) e = (Inr resp, e1)
        \<and> stop_reason resp = ''tool_use''
        \<and> requested_calls (content resp) \<noteq> []
        \<and> execute_tools resp (Some tm) e1 = (Inr (Some trs), e')
        \<and> msgs' = msgs @ [Message ''assistant'' (Blocks (content resp)),
                            Message ''user'' (ToolResults trs)]"
  then obtain resp e1 trs where
    c: "messages_create self (RoundCall n) (round_params self msgs sc tls n) e = (Inr resp, e1)"
    and s: "stop_reason resp = ''tool_use''"
    and t: "execute_tools resp (Some tm) e1 = (Inr (Some trs), e')"
    and m: "msgs' = msgs @ [Message ''assistant'' (Blocks (content resp)),
                            Message ''user'' (ToolResults trs)]"
    by (elim exE conjE)
  from execute_tools_Some_calls(2) [OF t]
  obtain tr trs' where trs: "trs = tr # trs'" by (cases trs) auto
  have "execute_round self msgs sc tls (Some tm) n e = (Inr (Continue resp), e1)"
    using c s by (simp add: execute_round_Continue_iff)
  then show "tool_round self sc tls (Some tm) n msgs e = Some (msgs', e')"
    using t m trs by (simp add: tool_round_def)
qed

lemmas gen_defs = generate_response_def handle_exception_def fallback_response_def
  execute_final_round_def execute_tools_def execute_round_def round_params_def
  system_content_of_def first_text_def execute_tool_def messages_create_def make_params_def
  tool_round_def

lemmas mock_defs = scripted_def mock_generator_def start_env_def text_reply_def
  tool_use_reply_def no_block_reply_def mock_tools_def two_tool_replies_def synthesis_reply_def
  mock_run_def mock_round_def interrupted_tools_def flaky_client_def flaky_generator_def

section \<open>The claims about AIGenerator\<close>

text \<open>
  Claim C1, as amended. With a tool manager supplied: if the first reply is a plain text
  completion, that text is returned after exactly 1 model call; if round 1 is a complete tool
  round and the reply of round 2 is a plain text completion, that text is returned after
  exactly 2 calls; if both rounds are complete tool rounds and the synthesis call returns
  a reply whose first block is a text, that text is returned after exactly 3 calls, whatever
  the stop reason of the synthesis reply. Without the condition on the call that ends the
  sequence the count is one higher, as the run after the theorem shows.
\<close>

theorem call_count_contract:
  "(\<forall>t e1.
       execute_round self [Message ''user'' (Text q)] (system_content_of self h) tls (Some tm) 1 e
         = (Inr (Final t), e1) \<longrightarrow>
       generate_response self q h tls (Some tm) e = (Inr t, e1)
     \<and> length (api_calls e1) = length (api_calls e) + 1)
   \<and> (\<forall>msgs1 e2 t e3.
       tool_round self (system_content_of self h) tls (Some tm) 1 [Message ''user'' (Text q)] e
         = Some (msgs1, e2)
     \<and> execute_round self msgs1 (system_content_of self h) tls (Some tm) 2 e2
         = (Inr (Final t), e3) \<longrightarrow>
       generate_response self q h tls (Some tm) e = (Inr t, e3)
     \<and> length (api_calls e3) = length (api_calls e) + 2)
   \<and> (\<forall>msgs1 e2 msgs2 e4 t e5.
       tool_round self (system_content_of self h) tls (Some tm) 1 [Message ''user'' (Text q)] e
         = Some (msgs1, e2)
     \<and> tool_round self (system_content_of self h) tls (Some tm) 2 msgs1 e2 = Some (msgs2, e4)
     \<and> execute_final_round self msgs2 (system_content_of self h) e4 = (Inr t, e5) \<longrightarrow>
       generate_response self q h tls (Some tm) e = (Inr t, e5)
     \<and> length (api_calls e5) = length (api_calls e) + 3)"
proof (intro conjI allI impI; (elim conjE)?)
  fix t e1
  assume r: "execute_round self [Message ''user'' (Text q)] (system_content_of self h) tls (Some tm) 1 e
         = (Inr (Final t), e1)"
  from round_loop_final [OF r]
  show "generate_response self q h tls (Some tm) e = (Inr t, e1)"
    by (simp add: generate_response_def)
  from execute_round_trace [OF r]
  show "length (api_calls e1) = length (api_calls e) + 1"
    by (elim exE conjE) simp
next
  fix msgs1 e2 t e3
  assume tr: "tool_round self (system_content_of self h) tls (Some tm) 1 [Message ''user'' (Text q)] e
         = Some (msgs1, e2)"
    and r: "execute_round self msgs1 (system_content_of self h) tls (Some tm) 2 e2
         = (Inr (Final t), e3)"
  have "round_loop self (system_content_of self h) tls (Some tm) [1, 2] [Message ''user'' (Text q)] e
          = round_loop self (system_content_of self h) tls (Some tm) [2] msgs1 e2"
    by (rule round_loop_tool_round [OF tr])
  also have "\<dots> = (Inr t, e3)"
    by (rule round_loop_final [OF r])
  finally show "generate_response self q h tls (Some tm) e = (Inr t, e3)"
    by (simp add: generate_response_def)
  from tool_round_trace(1) [OF tr] execute_round_trace [OF r]
  show "length (api_calls e3) = length (api_calls e) + 2"
    by (elim exE conjE) simp
next
  fix msgs1 e2 msgs2 e4 t e5
  assume t1: "tool_round self (system_content_of self h) tls (Some tm) 1 [Message ''user'' (Text q)] e
         = Some (msgs1, e2)"
    and t2: "tool_round self (system_content_of self h) tls (Some tm) 2 msgs1 e2 = Some (msgs2, e4)"
    and f: "execute_final_round self msgs2 (system_content_of self h) e4 = (Inr t, e5)"
  from two_tool_rounds(1) [OF t1 t2] f
  show "generate_response self q h tls (Some tm) e = (Inr t, e5)"
    by (simp add: generate_response_def)
  from two_tool_rounds(2) [OF t1 t2] execute_final_round_trace [OF f]
  show "length (api_calls e5) = length (api_calls e) + 3"
    by (elim exE conjE) simp
qed

text \<open>
  Both rounds reply with tool use and produce a tool result, the synthesis call raises:
  four model calls are made, the last one by the fallback.
\<close>

theorem call_count_contract_counterexample:
  "mock_round 1 [Message ''user'' (Text ''q'')]
       (start_env [Inr tool_use_reply, Inr tool_use_reply, Inl (Exception ''API Error''),
                   Inr (text_reply ''Fallback response'')]) \<noteq> None
   \<and> mock_round 2
       (fst (the (mock_round 1 [Message ''user'' (Text ''q'')]
                    (start_env [Inr tool_use_reply, Inr tool_use_reply, Inl (Exception ''API Error''),
                                Inr (text_reply ''Fallback response'')]))))
       (snd (the (mock_round 1 [Message ''user'' (Text ''q'')]
                    (start_env [Inr tool_use_reply, Inr tool_use_reply, Inl (Exception ''API Error''),
                                Inr (text_reply ''Fallback response'')]))))
       \<noteq> None
   \<and> map fst (api_calls (snd (mock_run [Inr tool_use_reply, Inr tool_use_reply,
                                          Inl (Exception ''API Error''),
                                          Inr (text_reply ''Fallback response'')])))
       = [RoundCall 1, RoundCall 2, SynthesisCall, FallbackCall]
   \<and> length (api_calls (snd (mock_run [Inr tool_use_reply, Inr tool_use_reply,
                                          Inl (Exception ''API Error''),
                                          Inr (text_reply ''Fallback response'')]))) \<noteq> 3"
  by (simp add: gen_defs mock_defs)

theorem call_count_contract_witness:
  "fst (mock_run [Inr (text_reply ''Direct answer without tools.'')])
       = Inr ''Direct answer without tools.''
   \<and> length (api_calls (snd (mock_run [Inr (text_reply ''Direct answer without tools.'')]))) = 1
   \<and> fst (mock_run [Inr tool_use_reply, Inr (text_reply ''Final answer after tool use.'')])
       = Inr ''Final answer after tool use.''
   \<and> length (api_calls (snd (mock_run [Inr tool_use_reply,
                                          Inr (text_reply ''Final answer after tool use.'')]))) = 2
   \<and> fst (mock_run [Inr tool_use_reply, Inr tool_use_reply, Inr synthesis_reply])
       = Inr ''Final synthesis after max rounds.''
   \<and> length (api_calls (snd (mock_run [Inr tool_use_reply, Inr tool_use_reply,
                                          Inr synthesis_reply]))) = 3"
proof -
  let ?sc = "system_content_of mock_generator None"
  let ?tls = "Some [''search_course_content'']"
  let ?q = "[Message ''user'' (Text ''q'')]"
  note c = call_count_contract [of mock_generator "''q''" None ?tls mock_tools]
  let ?a = "start_env [Inr (text_reply ''Direct answer without tools.'')]"
  obtain a1 where a: "execute_round mock_generator ?q ?sc ?tls (Some mock_tools) 1 ?a
      = (Inr (Final ''Direct answer without tools.''), a1)"
    by (simp add: gen_defs mock_defs)
  note ca = c [of ?a, THEN conjunct1, rule_format, OF a]
  let ?b = "start_env [Inr tool_use_reply, Inr (text_reply ''Final answer after tool use.'')]"
  obtain bm b2 where b1: "tool_round mock_generator ?sc ?tls (Some mock_tools) 1 ?q ?b = Some (bm, b2)"
    by (simp add: gen_defs mock_defs)
  obtain b3 where b2: "execute_round mock_generator bm ?sc ?tls (Some mock_tools) 2 b2
      = (Inr (Final ''Final answer after tool use.''), b3)"
    using b1 by (auto simp add: gen_defs mock_defs)
  note cb = c [of ?b, THEN conjunct2, THEN conjunct1, rule_format, OF conjI [OF b1 b2]]
  let ?d = "start_env [Inr tool_use_reply, Inr tool_use_reply, Inr synthesis_reply]"
  obtain dm1 d2 where d1: "tool_round mock_generator ?sc ?tls (Some mock_tools) 1 ?q ?d = Some (dm1, d2)"
    by (simp add: gen_defs mock_defs)
  obtain dm2 d4 where d2: "tool_round mock_generator ?sc ?tls (Some mock_tools) 2 dm1 d2 = Some (dm2, d4)"
    using d1 by (auto simp add: gen_defs mock_defs)
  obtain d5 where d3: "execute_final_round mock_generator dm2 ?sc d4
      = (Inr ''Final synthesis after max rounds.'', d5)"
    using d1 d2 by (auto simp add: gen_defs mock_defs)
  note cd = c [of ?d, THEN conjunct2, THEN conjunct2, rule_format, OF conjI [OF d1 conjI [OF d2 d3]]]
  from ca cb cd show ?thesis
    by (simp add: mock_run_def start_env_def)
qed

text \<open>
  Claim C5. When a round's reply asks for tools and executing it yields no result, the
  answer is the generic apology and no further model call is made: one call in all when this
  happens in round 1, two when it happens in round 2.
\<close>

theorem zero_tool_results_apology:
  "(\<forall>resp e1 e2.
       execute_round self [Message ''user'' (Text q)] (system_content_of self h) tls tm 1 e
         = (Inr (Continue resp), e1)
     \<and> execute_tools resp tm e1 = (Inr None, e2) \<longrightarrow>
       generate_response self q h tls tm e
         = (Inr ''I encountered an error while processing your request.'', e2)
     \<and> length (api_calls e2) = length (api_calls e) + 1)
   \<and> (\<forall>msgs e2 resp e3 e4.
       tool_round self (system_content_of self h) tls tm 1 [Message ''user'' (Text q)] e
         = Some (msgs, e2)
     \<and> execute_round self msgs (system_content_of self h) tls tm 2 e2 = (Inr (Continue resp), e3)
     \<and> execute_tools resp tm e3 = (Inr None, e4) \<longrightarrow>
       generate_response self q h tls tm e
         = (Inr ''I encountered an error while processing your request.'', e4)
     \<and> length (api_calls e4) = length (api_calls e) + 2)"
proof (intro conjI allI impI; elim conjE)
  fix resp e1 e2
  assume r: "execute_round self [Message ''user'' (Text q)] (system_content_of self h) tls tm 1 e
         = (Inr (Continue resp), e1)"
    and t: "execute_tools resp tm e1 = (Inr None, e2)"
  from round_loop_no_results [OF r t]
  show "generate_response self q h tls tm e
         = (Inr ''I encountered an error while processing your request.'', e2)"
    by (simp add: generate_response_def)
  from execute_round_trace [OF r] execute_tools_api [OF t]
  show "length (api_calls e2) = length (api_calls e) + 1"
    by (elim exE conjE) simp
next
  fix msgs e2 resp e3 e4
  assume tr: "tool_round self (system_content_of self h) tls tm 1 [Message ''user'' (Text q)] e
         = Some (msgs, e2)"
    and r: "execute_round self msgs (system_content_of self h) tls tm 2 e2 = (Inr (Continue resp), e3)"
    and t: "execute_tools resp tm e3 = (Inr None, e4)"
  have "round_loop self (system_content_of self h) tls tm [1, 2] [Message ''user'' (Text q)] e
          = round_loop self (system_content_of self h) tls tm [2] msgs e2"
    by (rule round_loop_tool_round [OF tr])
  also have "\<dots> = (Inr ''I encountered an error while processing your request.'', e4)"
    by (rule round_loop_no_results [OF r t])
  finally show "generate_response self q h tls tm e
         = (Inr ''I encountered an error while processing your request.'', e4)"
    by (simp add: generate_response_def)
  from tool_round_trace(1) [OF tr] execute_round_trace [OF r] execute_tools_api [OF t]
  show "length (api_calls e4) = length (api_calls e) + 2"
    by (elim exE conjE) simp
qed

theorem zero_tool_results_apology_witness:
  "execute_round mock_generator [Message ''user'' (Text ''q'')]
       (system_content_of mock_generator None) (Some [''search'']) (Some mock_tools) 1
       (start_env [Inr no_block_reply])
     = (Inr (Continue no_block_reply),
        \<lparr>world = [],
         api_calls = [(RoundCall 1,
                       make_params mock_generator [Message ''user'' (Text ''q'')]
                         ''You are an AI assistant'' (Some [''search'']) (Some ''auto''),
                       Inr no_block_reply)],
         tool_calls = []\<rparr>)
   \<and> generate_response mock_generator ''q'' None (Some [''search'']) (Some mock_tools)
         (start_env [Inr no_block_reply])
     = (Inr ''I encountered an error while processing your request.'',
        \<lparr>world = [],
         api_calls = [(RoundCall 1,
                       make_params mock_generator [Message ''user'' (Text ''q'')]
                         ''You are an AI assistant'' (Some [''search'']) (Some ''auto''),
                       Inr no_block_reply)],
         tool_calls = []\<rparr>)
   \<and> tool_round mock_generator (system_content_of mock_generator None) (Some [''search''])
         (Some mock_tools) 1 [Message ''user'' (Text ''q'')]
         (start_env [Inr tool_use_reply, Inr no_block_reply]) \<noteq> None
   \<and> fst (generate_response mock_generator ''q'' None (Some [''search'']) (Some mock_tools)
         (start_env [Inr tool_use_reply, Inr no_block_reply]))
     = Inr ''I encountered an error while processing your request.''
   \<and> length (api_calls (snd (generate_response mock_generator ''q'' None (Some [''search''])
         (Some mock_tools) (start_env [Inr tool_use_reply, Inr no_block_reply])))) = 2"
proof -
  let ?sc = "system_content_of mock_generator None"
  let ?e = "start_env [Inr no_block_reply]"
  let ?e1 = "\<lparr>world = [],
         api_calls = [(RoundCall 1,
                       make_params mock_generator [Message ''user'' (Text ''q'')]
                         ''You are an AI assistant'' (Some [''search'']) (Some ''auto''),
                       Inr no_block_reply)],
         tool_calls = []\<rparr> :: (py_exception + response) list env"
  have r1: "execute_round mock_generator [Message ''user'' (Text ''q'')] ?sc (Some [''search''])
              (Some mock_tools) 1 ?e = (Inr (Continue no_block_reply), ?e1)"
    by (simp add: gen_defs mock_defs)
  have t1: "execute_tools no_block_reply (Some mock_tools) ?e1 = (Inr None, ?e1)"
    by (simp add: gen_defs mock_defs)
  note a = zero_tool_results_apology [of mock_generator "''q''" None "Some [''search'']"
      "Some mock_tools" ?e, THEN conjunct1, rule_format, OF conjI [OF r1 t1]]
  let ?f = "start_env [Inr tool_use_reply, Inr no_block_reply]"
  obtain msgs e2 where tr: "tool_round mock_generator ?sc (Some [''search'']) (Some mock_tools) 1
         [Message ''user'' (Text ''q'')] ?f = Some (msgs, e2)"
    and m: "msgs = [Message ''user'' (Text ''q''),
                    Message ''assistant'' (Blocks (content tool_use_reply)),
                    Message ''user'' (ToolResults [result_of ''tool_1'' (Inr ''Search result'')])]"
    and e2: "e2 = \<lparr>world = [Inr no_block_reply],
         api_calls = [(RoundCall 1,
                       make_params mock_generator [Message ''user'' (Text ''q'')]
                         ''You are an AI assistant'' (Some [''search'']) (Some ''auto''),
                       Inr tool_use_reply)],
         tool_calls = [(''search_course_content'', [(''query'', ''test'')], Inr ''Search result'')]\<rparr>"
    by (simp add: gen_defs mock_defs)
  obtain e3 where r2: "execute_round mock_generator msgs ?sc (Some [''search'']) (Some mock_tools) 2 e2
      = (Inr (Continue no_block_reply), e3)"
    and t2: "execute_tools no_block_reply (Some mock_tools) e3 = (Inr None, e3)"
    unfolding m e2 by (simp add: gen_defs mock_defs)
  note b = zero_tool_results_apology [of mock_generator "''q''" None "Some [''search'']"
      "Some mock_tools" ?f, THEN conjunct2, rule_format, OF conjI [OF tr conjI [OF r2 t2]]]
  have l: "length (api_calls ?f) = 0" by (simp add: start_env_def)
  from a b r1 tr l show ?thesis by simp
qed

lemma fallback_response_tool_calls:
  "tool_calls (snd (fallback_response self q h err e)) = tool_calls e"
  using fallback_response_trace [of self q h err e] by (elim exE conjE) simp

lemma handle_exception_tool_calls:
  "tool_calls (snd (handle_exception self q h ex e)) = tool_calls e"
proof (cases "is_Exception ex")
  case False
  then show ?thesis by (simp add: handle_exception_not_Exception)
next
  case True
  then show ?thesis
    by (cases "str_of ex")
       (simp_all add: handle_exception_str_raises handle_exception_fallback
          fallback_response_tool_calls)
qed

lemma handle_exception_first_text:
  assumes "first_text resp = Inl ex"
  shows "handle_exception self q h ex e = fallback_response self q h (projr (str_of ex)) e"
proof -
  from first_text_is_Exception [OF assms] have c: "catchable ex" .
  from catchable_str_of [OF c] obtain m where m: "str_of ex = Inr m" ..
  from handle_exception_fallback [OF catchable_is_Exception [OF c] m] m show ?thesis by simp
qed

text \<open>
  Claim C10. Without a tool manager the answer is computed from the first model call alone:
  the text of the reply's first block, whatever the stop reason, or the fallback when that
  block has no text, or the handler of the outer \<^verbatim>\<open>try\<close> when the call raises. The
  tool-execution path is not part of this computation, and the trace of tool calls is
  unchanged.
\<close>

theorem no_tool_manager_no_tool_execution:
  "generate_response self q h tls None e =
     (case messages_create self (RoundCall 1)
             (round_params self [Message ''user'' (Text q)] (system_content_of self h) tls 1) e of
        (Inl ex, e1) \<Rightarrow> handle_exception self q h ex e1
      | (Inr resp, e1) \<Rightarrow>
          (case first_text resp of
             Inl ex \<Rightarrow> fallback_response self q h (projr (str_of ex)) e1
           | Inr t \<Rightarrow> (Inr t, e1)))
   \<and> tool_calls (snd (generate_response self q h tls None e)) = tool_calls e"
proof -
  let ?p = "round_params self [Message ''user'' (Text q)] (system_content_of self h) tls 1"
  obtain outcome e1 where c: "messages_create self (RoundCall 1) ?p e = (outcome, e1)"
    by (cases "messages_create self (RoundCall 1) ?p e")
  have t1: "tool_calls e1 = tool_calls e" by (rule messages_create_trace(2) [OF c])
  have eq: "generate_response self q h tls None e =
     (case outcome of
        Inl ex \<Rightarrow> handle_exception self q h ex e1
      | Inr resp \<Rightarrow>
          (case first_text resp of
             Inl ex \<Rightarrow> fallback_response self q h (projr (str_of ex)) e1
           | Inr t \<Rightarrow> (Inr t, e1)))"
    using c
    by (simp add: generate_response_def execute_round_def handle_exception_first_text
          split: sum.splits)
  have "tool_calls (snd (generate_response self q h tls None e)) = tool_calls e"
    unfolding eq using t1
    by (simp add: handle_exception_tool_calls fallback_response_tool_calls split: sum.splits)
  moreover have "generate_response self q h tls None e =
     (case messages_create self (RoundCall 1) ?p e of
        (Inl ex, e1) \<Rightarrow> handle_exception self q h ex e1
      | (Inr resp, e1) \<Rightarrow>
          (case first_text resp of
             Inl ex \<Rightarrow> fallback_response self q h (projr (str_of ex)) e1
           | Inr t \<Rightarrow> (Inr t, e1)))"
    unfolding eq c by (simp split: sum.splits)
  ultimately show ?thesis by simp
qed

lemma synthesis_after_two_rounds:
  assumes "tool_round self (system_content_of self h) tls tm 1 [Message ''user'' (Text q)] e
             = Some (msgs1, e2)"
    and "tool_round self (system_content_of self h) tls tm 2 msgs1 e2 = Some (msgs2, e4)"
  shows "\<exists>r e' params outcome rest.
            generate_response self q h tls tm e = (r, e')
          \<and> api_calls e' = api_calls e4 @ (SynthesisCall, params, outcome) # rest
          \<and> fst (client self params (world e4)) = outcome
          \<and> p_messages params = msgs2 \<and> p_system params = system_content_of self h
          \<and> p_tools params = None \<and> p_tool_choice params = None
          \<and> (\<exists>b1 r1 b2 r2. msgs2 = [Message ''user'' (Text q),
                 Message ''assistant'' (Blocks b1), Message ''user'' (ToolResults r1),
                 Message ''assistant'' (Blocks b2), Message ''user'' (ToolResults r2)])
          \<and> (rest = [] \<or> (\<exists>p' o'. rest = [(FallbackCall, p', o')]))
          \<and> (\<forall>resp t'. outcome = Inr resp \<and> first_text resp = Inr t' \<longrightarrow>
                 r = Inr t' \<and> rest = [])
          \<and> (\<forall>ex. catchable ex
                  \<and> (outcome = Inl ex \<or> (\<exists>resp. outcome = Inr resp \<and> first_text resp = Inl ex))
                \<longrightarrow> (\<exists>p' o'. rest = [(FallbackCall, p', o')] \<and> r = fallback_result o'
                       \<and> p_messages p' = [Message ''user'' (Text q)]))"
proof -
  let ?sc = "system_content_of self h"
  let ?p = "make_params self msgs2 ?sc None None"
  let ?fp = "make_params self [Message ''user'' (Text q)] ?sc None None"
  note two = two_tool_rounds [OF assms]
  obtain outcome e5 where c: "messages_create self SynthesisCall ?p e4 = (outcome, e5)"
    by (cases "messages_create self SynthesisCall ?p e4")
  note tr = messages_create_trace [OF c]
  have p: "p_messages ?p = msgs2" "p_system ?p = ?sc" "p_tools ?p = None" "p_tool_choice ?p = None"
    by (simp_all add: make_params_def)
  have cl: "fst (client self ?p (world e4)) = outcome"
    using tr(3) by simp
  have fin: "execute_final_round self msgs2 ?sc e4
       = (case outcome of Inl ex \<Rightarrow> (Inl ex, e5) | Inr resp \<Rightarrow> (first_text resp, e5))"
    using c by (simp add: execute_final_round_def split: sum.splits)
  have a0: "api_calls e5 = api_calls e4 @ (SynthesisCall, ?p, outcome) # []"
    using tr(1) by simp
  show ?thesis
  proof (cases "\<exists>resp t'. outcome = Inr resp \<and> first_text resp = Inr t'")
    case True
    then obtain resp t' where o: "outcome = Inr resp" "first_text resp = Inr t'" by blast
    have g: "generate_response self q h tls tm e = (Inr t', e5)"
      using two(1) fin o by (simp add: generate_response_def)
    have x1: "\<forall>resp t''. outcome = Inr resp \<and> first_text resp = Inr t'' \<longrightarrow>
        Inr t' = (Inr t'' :: py_exception + string)
          \<and> ([] :: (call_site \<times> api_params \<times> (py_exception + response)) list) = []"
      using o by simp
    have x2: "\<forall>ex. catchable ex
                  \<and> (outcome = Inl ex \<or> (\<exists>resp. outcome = Inr resp \<and> first_text resp = Inl ex))
                \<longrightarrow> (\<exists>p' o'. ([] :: (call_site \<times> api_params \<times> (py_exception + response)) list)
                             = [(FallbackCall, p', o')] \<and> Inr t' = fallback_result o'
                       \<and> p_messages p' = [Message ''user'' (Text q)])"
      using o by auto
    from g a0 cl p two(3) x1 x2 show ?thesis by blast
  next
    case False
    then obtain ex where rl: "execute_final_round self msgs2 ?sc e4 = (Inl ex, e5)"
      and exo: "outcome = Inl ex \<or> (\<exists>resp. outcome = Inr resp \<and> first_text resp = Inl ex)"
      unfolding fin by (cases outcome; cases "first_text (projr outcome)") auto
    have exu: "ex' = ex"
      if "outcome = Inl ex' \<or> (\<exists>resp. outcome = Inr resp \<and> first_text resp = Inl ex')" for ex'
      using that exo by auto
    have g: "generate_response self q h tls tm e = handle_exception self q h ex e5"
      using two(1) rl by (simp add: generate_response_def)
    have x1: "\<forall>resp t'. outcome = Inr resp \<and> first_text resp = Inr t' \<longrightarrow> P resp t'" for P
      using False by blast
    show ?thesis
    proof (cases "catchable ex")
      case True
      from catchable_str_of [OF True] obtain m where m: "str_of ex = Inr m" ..
      have hf: "handle_exception self q h ex e5 = fallback_response self q h m e5"
        by (rule handle_exception_fallback [OF catchable_is_Exception [OF True] m])
      obtain o' e6 where f:
        "fallback_response self q h m e5 = (fallback_result o', e6)"
        "api_calls e6 = api_calls e5 @ [(FallbackCall, ?fp, o')]"
        using fallback_response_trace [of self q h m e5] by (elim exE conjE)
      have g': "generate_response self q h tls tm e = (fallback_result o', e6)"
        using g hf f(1) by simp
      have a: "api_calls e6 = api_calls e4 @ (SynthesisCall, ?p, outcome) # [(FallbackCall, ?fp, o')]"
        using f(2) tr(1) by simp
      have d: "[(FallbackCall, ?fp, o')] = [] \<or> (\<exists>p' o''. [(FallbackCall, ?fp, o')] = [(FallbackCall, p', o'')])"
        by simp
      have pm: "p_messages ?fp = [Message ''user'' (Text q)]" by (simp add: make_params_def)
      have x2: "\<forall>ex. catchable ex
                  \<and> (outcome = Inl ex \<or> (\<exists>resp. outcome = Inr resp \<and> first_text resp = Inl ex))
                \<longrightarrow> (\<exists>p' o''. [(FallbackCall, ?fp, o')] = [(FallbackCall, p', o'')]
                       \<and> fallback_result o' = fallback_result o''
                       \<and> p_messages p' = [Message ''user'' (Text q)])"
        using pm by simp
      from g' a cl p two(3) d x1 x2 show ?thesis by blast
    next
      case nc: False
      have "handle_exception self q h ex e5 = (fst (handle_exception self q h ex e5), e5)"
      proof (cases "is_Exception ex")
        case False
        then show ?thesis by (simp add: handle_exception_not_Exception)
      next
        case True
        with nc obtain ex' where "str_of ex = Inl ex'"
          by (cases "str_of ex") (auto simp: catchable_def)
        with True show ?thesis by (simp add: handle_exception_str_raises)
      qed
      with g have g': "generate_response self q h tls tm e = (fst (handle_exception self q h ex e5), e5)"
        by simp
      have x2: "\<forall>ex'. catchable ex'
                  \<and> (outcome = Inl ex' \<or> (\<exists>resp. outcome = Inr resp \<and> first_text resp = Inl ex'))
                \<longrightarrow> P ex'" for P
        using exu nc by blast
      have d: "([] :: (call_site \<times> api_params \<times> (py_exception + response)) list) = []
          \<or> (\<exists>p' o''. ([] :: (call_site \<times> api_params \<times> (py_exception + response)) list) = [(FallbackCall, p', o'')])"
        by simp
      from g' a0 cl p two(3) d x1 x2 show ?thesis by blast
    qed
  qed
qed

text \<open>
  Claim C4, as amended. After two complete tool rounds exactly one synthesis call follows:
  its messages are the whole history (the query and, for each round, the model's turn and the
  tool results), its system text is the one of the rounds, and it has neither tools nor a
  tool choice. If it returns a reply whose first block is a text, that text is the answer,
  whatever the stop reason, and no further call is made. If it raises an instance of
  \<^verbatim>\<open>Exception\<close> that can be printed, or its reply has no text as first block, one
  fallback call follows and decides the answer. No other call follows the synthesis call.
\<close>

theorem forced_synthesis_after_two_rounds:
  assumes "tool_round self (system_content_of self h) tls tm 1 [Message ''user'' (Text q)] e
             = Some (msgs1, e2)"
    and "tool_round self (system_content_of self h) tls tm 2 msgs1 e2 = Some (msgs2, e4)"
  shows "\<exists>r e' params outcome rest.
            generate_response self q h tls tm e = (r, e')
          \<and> api_calls e' = api_calls e4 @ (SynthesisCall, params, outcome) # rest
          \<and> fst (client self params (world e4)) = outcome
          \<and> p_messages params = msgs2 \<and> p_system params = system_content_of self h
          \<and> p_tools params = None \<and> p_tool_choice params = None
          \<and> (\<exists>b1 r1 b2 r2. msgs2 = [Message ''user'' (Text q),
                 Message ''assistant'' (Blocks b1), Message ''user'' (ToolResults r1),
                 Message ''assistant'' (Blocks b2), Message ''user'' (ToolResults r2)])
          \<and> (rest = [] \<or> (\<exists>p' o'. rest = [(FallbackCall, p', o')]))
          \<and> (\<forall>resp t'. outcome = Inr resp \<and> first_text resp = Inr t' \<longrightarrow>
                 r = Inr t' \<and> rest = [])
          \<and> (\<forall>ex. catchable ex
                  \<and> (outcome = Inl ex \<or> (\<exists>resp. outcome = Inr resp \<and> first_text resp = Inl ex))
                \<longrightarrow> (\<exists>p' o'. rest = [(FallbackCall, p', o')] \<and> r = fallback_result o'
                       \<and> p_messages p' = [Message ''user'' (Text q)]))"
  by (rule synthesis_after_two_rounds [OF assms])

text \<open>
  Two complete tool rounds, then the synthesis call raises: two further calls are made, the
  synthesis call and the fallback, and the answer is the text of the fallback's reply.
\<close>

theorem forced_synthesis_after_two_rounds_counterexample:
  "mock_round 1 [Message ''user'' (Text ''q'')]
       (start_env [Inr tool_use_reply, Inr tool_use_reply, Inl (Exception ''Overloaded''),
                   Inr (text_reply ''Fallback response'')]) \<noteq> None
   \<and> mock_round 2
       (fst (the (mock_round 1 [Message ''user'' (Text ''q'')]
                    (start_env [Inr tool_use_reply, Inr tool_use_reply,
                                Inl (Exception ''Overloaded''),
                                Inr (text_reply ''Fallback response'')]))))
       (snd (the (mock_round 1 [Message ''user'' (Text ''q'')]
                    (start_env [Inr tool_use_reply, Inr tool_use_reply,
                                Inl (Exception ''Overloaded''),
                                Inr (text_reply ''Fallback response'')]))))
       \<noteq> None
   \<and> map (\<lambda>c. (fst c, snd (snd c)))
        (drop 2 (api_calls (snd (mock_run [Inr tool_use_reply, Inr tool_use_reply,
                                            Inl (Exception ''Overloaded''),
                                            Inr (text_reply ''Fallback response'')]))))
       = [(SynthesisCall, Inl (Exception ''Overloaded'')),
          (FallbackCall, Inr (text_reply ''Fallback response''))]
   \<and> fst (mock_run [Inr tool_use_reply, Inr tool_use_reply, Inl (Exception ''Overloaded''),
                     Inr (text_reply ''Fallback response'')])
       = Inr ''Fallback response''"
  by (simp add: gen_defs mock_defs)

theorem forced_synthesis_after_two_rounds_witness:
  "mock_round 1 [Message ''user'' (Text ''q'')]
       (start_env [Inr tool_use_reply, Inr tool_use_reply, Inr synthesis_reply]) \<noteq> None
   \<and> mock_round 2
       (fst (the (mock_round 1 [Message ''user'' (Text ''q'')]
                    (start_env [Inr tool_use_reply, Inr tool_use_reply, Inr synthesis_reply]))))
       (snd (the (mock_round 1 [Message ''user'' (Text ''q'')]
                    (start_env [Inr tool_use_reply, Inr tool_use_reply, Inr synthesis_reply]))))
       \<noteq> None
   \<and> fst (mock_run [Inr tool_use_reply, Inr tool_use_reply, Inr synthesis_reply])
       = Inr ''Final synthesis after max rounds.''
   \<and> map fst (api_calls (snd (mock_run [Inr tool_use_reply, Inr tool_use_reply, Inr synthesis_reply])))
       = [RoundCall 1, RoundCall 2, SynthesisCall]
   \<and> map (p_tools \<circ> fst \<circ> snd)
        (api_calls (snd (mock_run [Inr tool_use_reply, Inr tool_use_reply, Inr synthesis_reply])))
       = [Some [''search_course_content''], Some [''search_course_content''], None]"
proof -
  let ?e = "start_env [Inr tool_use_reply, Inr tool_use_reply, Inr synthesis_reply]"
  obtain msgs1 e2 where r1: "mock_round 1 [Message ''user'' (Text ''q'')] ?e = Some (msgs1, e2)"
    by (simp add: gen_defs mock_defs)
  obtain msgs2 e4 where r2: "mock_round 2 msgs1 e2 = Some (msgs2, e4)"
    using r1 by (auto simp add: gen_defs mock_defs)
  from forced_synthesis_after_two_rounds [OF r1 [unfolded mock_round_def] r2 [unfolded mock_round_def]]
  obtain r e' where "generate_response mock_generator ''q'' None (Some [''search_course_content''])
       (Some mock_tools) ?e = (r, e')"
    by (elim exE conjE)
  then have "\<exists>r. fst (mock_run [Inr tool_use_reply, Inr tool_use_reply, Inr synthesis_reply]) = r"
    by (simp add: mock_run_def)
  moreover have "fst (mock_run [Inr tool_use_reply, Inr tool_use_reply, Inr synthesis_reply])
       = Inr ''Final synthesis after max rounds.''
     \<and> map fst (api_calls (snd (mock_run [Inr tool_use_reply, Inr tool_use_reply, Inr synthesis_reply])))
       = [RoundCall 1, RoundCall 2, SynthesisCall]
     \<and> map (p_tools \<circ> fst \<circ> snd)
        (api_calls (snd (mock_run [Inr tool_use_reply, Inr tool_use_reply, Inr synthesis_reply])))
       = [Some [''search_course_content''], Some [''search_course_content''], None]"
    by (simp add: gen_defs mock_defs)
  ultimately show ?thesis using r1 r2 by simp
qed

lemma messages_create_catchable:
  assumes "\<forall>p w ex. fst (client self p w) = Inl ex \<longrightarrow> catchable ex"
    and "messages_create self site p e = (Inl ex, e')"
  shows "catchable ex"
proof -
  from messages_create_trace(3) [OF assms(2)] have "fst (client self p (world e)) = Inl ex" by simp
  with assms(1) show ?thesis by blast
qed

lemma execute_round_catchable:
  assumes "\<forall>p w ex. fst (client self p w) = Inl ex \<longrightarrow> catchable ex"
    and "execute_round self msgs sc tls tm n e = (Inl ex, e')"
  shows "catchable ex"
proof -
  obtain x e1 where c: "messages_create self (RoundCall n) (round_params self msgs sc tls n) e = (x, e1)"
    by (cases "messages_create self (RoundCall n) (round_params self msgs sc tls n) e")
  show ?thesis
  proof (cases x)
    case (Inl ex')
    with assms(2) c have "ex' = ex" by (simp add: execute_round_def)
    with messages_create_catchable [OF assms(1) c [unfolded Inl]] show ?thesis by simp
  next
    case (Inr resp)
    with assms(2) c have "first_text resp = Inl ex"
      by (auto simp: execute_round_def split: if_splits sum.splits)
    then show ?thesis by (rule first_text_is_Exception)
  qed
qed

lemma execute_final_round_catchable:
  assumes "\<forall>p w ex. fst (client self p w) = Inl ex \<longrightarrow> catchable ex"
    and "execute_final_round self msgs sc e = (Inl ex, e')"
  shows "catchable ex"
proof -
  obtain x e1 where c: "messages_create self SynthesisCall (make_params self msgs sc None None) e = (x, e1)"
    by (cases "messages_create self SynthesisCall (make_params self msgs sc None None) e")
  show ?thesis
  proof (cases x)
    case (Inl ex')
    with assms(2) c have "ex' = ex" by (simp add: execute_final_round_def)
    with messages_create_catchable [OF assms(1) c [unfolded Inl]] show ?thesis by simp
  next
    case (Inr resp)
    with assms(2) c have "first_text resp = Inl ex"
      by (simp add: execute_final_round_def)
    then show ?thesis by (rule first_text_is_Exception)
  qed
qed

lemma execute_tool_catchable:
  assumes "\<forall>f n a w ex. tm = Some f \<and> fst (f n a w) = Inl ex \<longrightarrow> catchable ex"
    and "execute_tool tm n a e = (Inl ex, e')"
  shows "catchable ex"
proof (cases tm)
  case None
  with assms(2) show ?thesis by (auto simp: execute_tool_def catchable_def)
next
  case (Some f)
  with assms(2) have "fst (f n a (world e)) = Inl ex"
    by (auto simp: execute_tool_def split: prod.splits)
  with assms(1) Some show ?thesis by blast
qed

lemma execute_blocks_returns:
  assumes "\<forall>f n a w ex. tm = Some f \<and> fst (f n a w) = Inl ex \<longrightarrow> catchable ex"
  shows "\<exists>trs e'. execute_blocks tm blocks acc e = (Inr trs, e')"
proof (induction blocks arbitrary: acc e)
  case Nil
  show ?case by simp
next
  case (Cons b rest)
  show ?case
  proof (cases b)
    case (TextBlock t)
    with Cons [of acc e] show ?thesis by simp
  next
    case (ToolUseBlock i n a)
    obtain x e1 where x: "execute_tool tm n a e = (x, e1)"
      by (cases "execute_tool tm n a e")
    show ?thesis
    proof (cases x)
      case (Inr s)
      with ToolUseBlock x
        Cons [of "acc @ [\<lparr>result_type = ''tool_result'', tool_use_id = i, result_content = s\<rparr>]" e1]
      show ?thesis by simp
    next
      case (Inl ex)
      from execute_tool_catchable [OF assms x [unfolded Inl]] have c: "catchable ex" .
      from catchable_str_of [OF c] obtain m where m: "str_of ex = Inr m" ..
      with ToolUseBlock x Inl catchable_is_Exception [OF c]
        Cons [of "acc @ [\<lparr>result_type = ''tool_result'', tool_use_id = i,
                          result_content = ''Tool execution error: '' @ m\<rparr>]" e1]
      show ?thesis by simp
    qed
  qed
qed

lemma execute_tools_returns:
  assumes "\<forall>f n a w ex. tm = Some f \<and> fst (f n a w) = Inl ex \<longrightarrow> catchable ex"
  shows "\<exists>r e'. execute_tools resp tm e = (Inr r, e')"
proof -
  from execute_blocks_returns [OF assms, of "content resp" "[]" e]
  obtain trs e' where "execute_blocks tm (content resp) [] e = (Inr trs, e')" by (elim exE)
  then show ?thesis by (simp add: execute_tools_def)
qed

lemma round_loop_catchable:
  assumes gc: "\<forall>p w ex. fst (client self p w) = Inl ex \<longrightarrow> catchable ex"
    and gt: "\<forall>f n a w ex. tm = Some f \<and> fst (f n a w) = Inl ex \<longrightarrow> catchable ex"
    and "round_loop self sc tls tm rs msgs e = (Inl ex, e')"
  shows "catchable ex"
  using assms(3)
proof (induction rs arbitrary: msgs e)
  case Nil
  then have "execute_final_round self msgs sc e = (Inl ex, e')" by simp
  then show ?case by (rule execute_final_round_catchable [OF gc])
next
  case (Cons n rest)
  obtain x e1 where x: "execute_round self msgs sc tls tm n e = (x, e1)"
    by (cases "execute_round self msgs sc tls tm n e")
  show ?case
  proof (cases x)
    case (Inl ex')
    with Cons.prems x have "ex' = ex" by simp
    with execute_round_catchable [OF gc x [unfolded Inl]] show ?thesis by simp
  next
    case (Inr rr)
    show ?thesis
    proof (cases rr)
      case (Final t)
      with Cons.prems x Inr show ?thesis by simp
    next
      case (Continue resp)
      from execute_tools_returns [OF gt, of resp e1]
      obtain y e2 where y: "execute_tools resp tm e1 = (Inr y, e2)" by (elim exE)
      show ?thesis
      proof (cases "\<exists>tr trs. y = Some (tr # trs)")
        case True
        then obtain tr trs where "y = Some (tr # trs)" by blast
        with Cons.prems x Inr Continue y
        have "round_loop self sc tls tm rest
                (msgs @ [Message ''assistant'' (Blocks (content resp)),
                         Message ''user'' (ToolResults (tr # trs))]) e2 = (Inl ex, e')"
          by simp
        then show ?thesis by (rule Cons.IH)
      next
        case False
        with Cons.prems x Inr Continue y show ?thesis
          by (cases y) (auto split: list.splits)
      qed
    qed
  qed
qed

text \<open>
  Claim C2, as amended. When an exception escapes the rounds that is an instance of
  \<^verbatim>\<open>Exception\<close> and that \<^verbatim>\<open>str\<close> prints, exactly one more model call is made, by
  the fallback: its messages are the original query alone, its system text carries the
  conversation history, it has no tools. If that call raises an instance of
  \<^verbatim>\<open>Exception\<close>, or its reply has no text as first block, the result is the fixed text;
  if its reply starts with a text, that text; a raise that is no instance of
  \<^verbatim>\<open>Exception\<close> goes to the caller. When every exception that the client and the
  tools raise is an instance of \<^verbatim>\<open>Exception\<close> that \<^verbatim>\<open>str\<close> prints,
  \<^verbatim>\<open>generate_response\<close> returns a text and raises nothing. An exception that escapes
  the rounds and is no instance of \<^verbatim>\<open>Exception\<close>, or on which \<^verbatim>\<open>str\<close> raises,
  reaches the caller without a fallback call.
\<close>

theorem generate_response_fallback_contract:
  "(\<forall>ex e1 m.
       round_loop self (system_content_of self h) tls tm [1, 2] [Message ''user'' (Text q)] e
         = (Inl ex, e1)
     \<and> is_Exception ex \<and> str_of ex = Inr m \<longrightarrow>
       (\<exists>r outcome e2 params.
            generate_response self q h tls tm e = (r, e2)
          \<and> api_calls e2 = api_calls e1 @ [(FallbackCall, params, outcome)]
          \<and> tool_calls e2 = tool_calls e1
          \<and> client self params (world e1) = (outcome, world e2)
          \<and> p_messages params = [Message ''user'' (Text q)]
          \<and> p_system params = system_content_of self h
          \<and> p_tools params = None \<and> p_tool_choice params = None
          \<and> (\<forall>ex'. outcome = Inl ex' \<and> is_Exception ex' \<longrightarrow>
                 r = Inr ''I encountered an error processing your request. Please try again.'')
          \<and> (\<forall>ex'. outcome = Inl ex' \<and> \<not> is_Exception ex' \<longrightarrow> r = Inl ex')
          \<and> (\<forall>resp ex'. outcome = Inr resp \<and> first_text resp = Inl ex' \<longrightarrow>
                 r = Inr ''I encountered an error processing your request. Please try again.'')
          \<and> (\<forall>resp t'. outcome = Inr resp \<and> first_text resp = Inr t' \<longrightarrow> r = Inr t')))
   \<and> ((\<forall>p w ex. fst (client self p w) = Inl ex \<longrightarrow> catchable ex)
      \<and> (\<forall>f n a w ex. tm = Some f \<and> fst (f n a w) = Inl ex \<longrightarrow> catchable ex)
      \<longrightarrow> (\<exists>t. fst (generate_response self q h tls tm e) = Inr t))
   \<and> (\<forall>ex e1.
         round_loop self (system_content_of self h) tls tm [1, 2] [Message ''user'' (Text q)] e
           = (Inl ex, e1)
       \<and> \<not> is_Exception ex \<longrightarrow>
         generate_response self q h tls tm e = (Inl ex, e1))
   \<and> (\<forall>ex e1 ex'.
         round_loop self (system_content_of self h) tls tm [1, 2] [Message ''user'' (Text q)] e
           = (Inl ex, e1)
       \<and> is_Exception ex \<and> str_of ex = Inl ex' \<longrightarrow>
         generate_response self q h tls tm e = (Inl ex', e1))"
proof (intro conjI allI impI; (elim conjE)?)
  fix ex e1
  assume rl: "round_loop self (system_content_of self h) tls tm [1, 2] [Message ''user'' (Text q)] e
                  = (Inl ex, e1)"
    and ne: "\<not> is_Exception ex"
  show "generate_response self q h tls tm e = (Inl ex, e1)"
    using generate_response_unfold [OF rl] handle_exception_not_Exception [OF ne] by simp
next
  fix ex e1 ex'
  assume rl: "round_loop self (system_content_of self h) tls tm [1, 2] [Message ''user'' (Text q)] e
                  = (Inl ex, e1)"
    and ie: "is_Exception ex" and st: "str_of ex = Inl ex'"
  show "generate_response self q h tls tm e = (Inl ex', e1)"
    using generate_response_unfold [OF rl] handle_exception_str_raises [OF ie st] by simp
next
  fix ex e1 m
  assume rl: "round_loop self (system_content_of self h) tls tm [1, 2] [Message ''user'' (Text q)] e
                  = (Inl ex, e1)"
    and ie: "is_Exception ex" and st: "str_of ex = Inr m"
  let ?p = "make_params self [Message ''user'' (Text q)] (system_content_of self h) None None"
  let ?fixed = "''I encountered an error processing your request. Please try again.''"
  have g: "generate_response self q h tls tm e = fallback_response self q h m e1"
    using generate_response_unfold [OF rl] handle_exception_fallback [OF ie st] by simp
  obtain outcome e2 where f:
      "fallback_response self q h m e1 = (fallback_result outcome, e2)"
      "api_calls e2 = api_calls e1 @ [(FallbackCall, ?p, outcome)]"
      "tool_calls e2 = tool_calls e1"
      "client self ?p (world e1) = (outcome, world e2)"
    using fallback_response_trace [of self q h m e1] by (elim exE conjE)
  have p: "p_messages ?p = [Message ''user'' (Text q)]" "p_system ?p = system_content_of self h"
      "p_tools ?p = None" "p_tool_choice ?p = None"
    by (simp_all add: make_params_def)
  have t1: "\<forall>ex'. outcome = Inl ex' \<and> is_Exception ex' \<longrightarrow> fallback_result outcome = Inr ?fixed"
    by (simp add: fallback_result_def)
  have t2: "\<forall>ex'. outcome = Inl ex' \<and> \<not> is_Exception ex' \<longrightarrow> fallback_result outcome = Inl ex'"
    by (simp add: fallback_result_def)
  have t3: "\<forall>resp ex'. outcome = Inr resp \<and> first_text resp = Inl ex' \<longrightarrow>
      fallback_result outcome = Inr ?fixed"
    by (simp add: fallback_result_def)
  have t4: "\<forall>resp t'. outcome = Inr resp \<and> first_text resp = Inr t' \<longrightarrow> fallback_result outcome = Inr t'"
    by (simp add: fallback_result_def)
  from g f(1) have "generate_response self q h tls tm e = (fallback_result outcome, e2)" by simp
  with f(2-4) p t1 t2 t3 t4
  show "\<exists>r outcome e2 params.
            generate_response self q h tls tm e = (r, e2)
          \<and> api_calls e2 = api_calls e1 @ [(FallbackCall, params, outcome)]
          \<and> tool_calls e2 = tool_calls e1
          \<and> client self params (world e1) = (outcome, world e2)
          \<and> p_messages params = [Message ''user'' (Text q)]
          \<and> p_system params = system_content_of self h
          \<and> p_tools params = None \<and> p_tool_choice params = None
          \<and> (\<forall>ex'. outcome = Inl ex' \<and> is_Exception ex' \<longrightarrow> r = Inr ?fixed)
          \<and> (\<forall>ex'. outcome = Inl ex' \<and> \<not> is_Exception ex' \<longrightarrow> r = Inl ex')
          \<and> (\<forall>resp ex'. outcome = Inr resp \<and> first_text resp = Inl ex' \<longrightarrow> r = Inr ?fixed)
          \<and> (\<forall>resp t'. outcome = Inr resp \<and> first_text resp = Inr t' \<longrightarrow> r = Inr t')"
    by blast
next
  assume gc: "\<forall>p w ex. fst (client self p w) = Inl ex \<longrightarrow> catchable ex"
    and gt: "\<forall>f n a w ex. tm = Some f \<and> fst (f n a w) = Inl ex \<longrightarrow> catchable ex"
  obtain r e1 where rl:
    "round_loop self (system_content_of self h) tls tm [1, 2] [Message ''user'' (Text q)] e = (r, e1)"
    by (cases "round_loop self (system_content_of self h) tls tm [1, 2] [Message ''user'' (Text q)] e")
  show "\<exists>t. fst (generate_response self q h tls tm e) = Inr t"
  proof (cases r)
    case (Inr t)
    with generate_response_unfold [OF rl] show ?thesis by simp
  next
    case (Inl ex)
    from round_loop_catchable [OF gc gt rl [unfolded Inl]] have c: "catchable ex" .
    from catchable_str_of [OF c] obtain m where m: "str_of ex = Inr m" ..
    have g: "generate_response self q h tls tm e = fallback_response self q h m e1"
      using generate_response_unfold [OF rl] Inl
        handle_exception_fallback [OF catchable_is_Exception [OF c] m] by simp
    let ?p = "make_params self [Message ''user'' (Text q)] (system_content_of self h) None None"
    obtain outcome e2 where f:
      "fallback_response self q h m e1 = (fallback_result outcome, e2)"
      "client self ?p (world e1) = (outcome, world e2)"
      using fallback_response_trace [of self q h m e1] by (elim exE conjE)
    have "\<exists>t. fallback_result outcome = Inr t"
    proof (cases outcome)
      case (Inl ex')
      with f(2) have "fst (client self ?p (world e1)) = Inl ex'" by simp
      with gc have "catchable ex'" by blast
      with Inl show ?thesis by (simp add: fallback_result_def catchable_def)
    next
      case (Inr resp)
      then show ?thesis by (cases "first_text resp") (simp_all add: fallback_result_def)
    qed
    with g f(1) show ?thesis by auto
  qed
qed

text \<open>
  The client is interrupted from the keyboard during the first call: no fallback call is
  made and the interrupt reaches the caller.
\<close>

theorem generate_response_fallback_contract_counterexample:
  "fst (mock_run [Inl (NotException ''KeyboardInterrupt''),
                  Inr (text_reply ''Fallback response'')])
     = Inl (NotException ''KeyboardInterrupt'')
   \<and> map fst (api_calls (snd (mock_run [Inl (NotException ''KeyboardInterrupt''),
                                        Inr (text_reply ''Fallback response'')])))
     = [RoundCall 1]"
  by (simp add: gen_defs mock_defs)

theorem generate_response_fallback_contract_witness:
  "round_loop mock_generator (system_content_of mock_generator None) None None [1, 2]
       [Message ''user'' (Text ''q'')]
       (start_env [Inl (Exception ''API Error''), Inl (Exception ''Overloaded'')])
     = (Inl (Exception ''API Error''),
        \<lparr>world = [Inl (Exception ''Overloaded'')],
         api_calls = [(RoundCall 1,
                       make_params mock_generator [Message ''user'' (Text ''q'')]
                         ''You are an AI assistant'' None None,
                       Inl (Exception ''API Error''))],
         tool_calls = []\<rparr>)
   \<and> fst (generate_response mock_generator ''q'' None None None
             (start_env [Inl (Exception ''API Error''), Inl (Exception ''Overloaded'')]))
       = Inr ''I encountered an error processing your request. Please try again.''
   \<and> fst (generate_response flaky_generator ''q'' None (Some [''search_course_content''])
             (Some mock_tools) \<lparr>world = 0, api_calls = [], tool_calls = []\<rparr>)
       = Inr ''Fallback response''"
proof -
  let ?e = "start_env [Inl (Exception ''API Error''), Inl (Exception ''Overloaded'')]"
  let ?e1 = "\<lparr>world = [Inl (Exception ''Overloaded'')],
         api_calls = [(RoundCall 1,
                       make_params mock_generator [Message ''user'' (Text ''q'')]
                         ''You are an AI assistant'' None None,
                       Inl (Exception ''API Error''))],
         tool_calls = []\<rparr>"
  have h: "round_loop mock_generator (system_content_of mock_generator None) None None [1, 2]
       [Message ''user'' (Text ''q'')] ?e = (Inl (Exception ''API Error''), ?e1)
     \<and> is_Exception (Exception ''API Error'') \<and> str_of (Exception ''API Error'') = Inr ''API Error''"
    by (simp add: gen_defs mock_defs)
  from generate_response_fallback_contract [THEN conjunct1, rule_format, OF h]
  obtain r outcome e2 params where
    g: "generate_response mock_generator ''q'' None None None ?e = (r, e2)"
    and c: "client mock_generator params (world ?e1) = (outcome, world e2)"
    and f: "\<forall>ex'. outcome = Inl ex' \<and> is_Exception ex' \<longrightarrow>
                 r = Inr ''I encountered an error processing your request. Please try again.''"
    by (elim exE conjE)
  from c have "outcome = Inl (Exception ''Overloaded'')"
    by (simp add: mock_defs)
  with f have r: "r = Inr ''I encountered an error processing your request. Please try again.''"
    by simp
  have gc: "\<forall>p w ex. fst (client flaky_generator p w) = Inl ex \<longrightarrow> catchable ex"
    by (simp add: flaky_generator_def flaky_client_def catchable_def)
  have gt: "\<forall>f n a w ex. Some (mock_tools :: nat tool_manager) = Some f \<and> fst (f n a w) = Inl ex
      \<longrightarrow> catchable ex"
    by (auto simp: mock_tools_def catchable_def split: if_splits)
  from generate_response_fallback_contract [THEN conjunct2, THEN conjunct1, rule_format, OF conjI [OF gc gt],
      of "''q''" None "Some [''search_course_content'']" "\<lparr>world = 0, api_calls = [], tool_calls = []\<rparr>"]
  obtain t where "fst (generate_response flaky_generator ''q'' None (Some [''search_course_content''])
             (Some mock_tools) \<lparr>world = 0, api_calls = [], tool_calls = []\<rparr>) = Inr t" ..
  moreover have "fst (generate_response flaky_generator ''q'' None (Some [''search_course_content''])
             (Some mock_tools) \<lparr>world = 0, api_calls = [], tool_calls = []\<rparr>) = Inr ''Fallback response''"
    by (simp add: gen_defs mock_defs)
  ultimately show ?thesis using g r h by simp
qed

lemma execute_blocks_reference:
  assumes "tool_outcomes tm (requested_calls blocks) (world e) = (outcomes, w2)"
    and "\<forall>ex. Inl ex \<in> set outcomes \<longrightarrow> catchable ex"
  shows "execute_blocks (Some tm) blocks acc e
           = (Inr (acc @ map2 call_result (requested_calls blocks) outcomes),
              e\<lparr>world := w2,
                tool_calls := tool_calls e @ map2 call_entry (requested_calls blocks) outcomes\<rparr>)
         \<and> length outcomes = length (requested_calls blocks)"
  using assms
proof (induction blocks arbitrary: acc e outcomes)
  case Nil
  then show ?case by simp
next
  case (Cons b rest)
  show ?case
  proof (cases b)
    case (TextBlock t)
    with Cons.IH [of e outcomes acc] Cons.prems show ?thesis by simp
  next
    case (ToolUseBlock i n a)
    obtain r w1 where t: "tm n a (world e) = (r, w1)" by (cases "tm n a (world e)")
    obtain rs w3 where ts: "tool_outcomes tm (requested_calls rest) w1 = (rs, w3)"
      by (cases "tool_outcomes tm (requested_calls rest) w1")
    from Cons.prems(1) ToolUseBlock t ts have o: "outcomes = r # rs" and w: "w3 = w2" by simp_all
    let ?e1 = "e\<lparr>world := w1, tool_calls := tool_calls e @ [(n, a, r)]\<rparr>"
    have x: "execute_tool (Some tm) n a e = (r, ?e1)" using t by (simp add: execute_tool_def)
    have ts': "tool_outcomes tm (requested_calls rest) (world ?e1) = (rs, w2)"
      using ts w by simp
    have good': "\<forall>ex. Inl ex \<in> set rs \<longrightarrow> catchable ex"
      using Cons.prems(2) o by simp
    have step: "execute_blocks (Some tm) (b # rest) acc e
        = execute_blocks (Some tm) rest (acc @ [result_of i r]) ?e1"
    proof (cases r)
      case (Inr s)
      with ToolUseBlock x show ?thesis by simp
    next
      case (Inl ex)
      with Cons.prems(2) o have c: "catchable ex" by simp
      from catchable_str_of [OF c] obtain m where m: "str_of ex = Inr m" ..
      with ToolUseBlock x Inl catchable_is_Exception [OF c] show ?thesis by simp
    qed
    from Cons.IH [OF ts' good', of "acc @ [result_of i r]"] step o ToolUseBlock
    show ?thesis by simp
  qed
qed

lemma execute_round_client:
  assumes "execute_round self msgs sc tls tm n e = (r, e')"
  shows "\<exists>outcome. api_calls e' = api_calls e @ [(RoundCall n, round_params self msgs sc tls n, outcome)]
           \<and> fst (client self (round_params self msgs sc tls n) (world e)) = outcome"
proof -
  obtain outcome e1 where c: "messages_create self (RoundCall n) (round_params self msgs sc tls n) e = (outcome, e1)"
    by (cases "messages_create self (RoundCall n) (round_params self msgs sc tls n) e")
  have "e' = e1"
    using assms c by (auto simp: execute_round_def split: sum.splits if_splits)
  with messages_create_trace [OF c] show ?thesis by simp
qed

lemma round_loop_first_call:
  assumes "round_loop self sc tls tm (n # rest) msgs e = (r, e')"
  shows "\<exists>outcome more.
            api_calls e' = api_calls e @ (RoundCall n, round_params self msgs sc tls n, outcome) # more
          \<and> fst (client self (round_params self msgs sc tls n) (world e)) = outcome"
proof -
  obtain x e1 where x: "execute_round self msgs sc tls tm n e = (x, e1)"
    by (cases "execute_round self msgs sc tls tm n e")
  from execute_round_client [OF x] obtain outcome where
    l1: "api_calls e1 = api_calls e @ [(RoundCall n, round_params self msgs sc tls n, outcome)]"
    and cl: "fst (client self (round_params self msgs sc tls n) (world e)) = outcome"
    by (elim exE conjE)
  have "\<exists>more. api_calls e' = api_calls e1 @ more"
  proof (cases "\<exists>resp e2 tr trs. x = Inr (Continue resp)
                  \<and> execute_tools resp tm e1 = (Inr (Some (tr # trs)), e2)")
    case True
    then obtain resp e2 tr trs where c: "x = Inr (Continue resp)"
      and t: "execute_tools resp tm e1 = (Inr (Some (tr # trs)), e2)" by blast
    from assms x c t have "round_loop self sc tls tm rest
        (msgs @ [Message ''assistant'' (Blocks (content resp)),
                 Message ''user'' (ToolResults (tr # trs))]) e2 = (r, e')" by simp
    from round_loop_sites [OF this] obtain new where "api_calls e' = api_calls e2 @ new"
      by (elim exE conjE)
    with execute_tools_api [OF t] have "api_calls e' = api_calls e1 @ new" by simp
    then show ?thesis by (rule exI)
  next
    case False
    have "api_calls e' = api_calls e1"
    proof (cases x)
      case (Inl ex)
      with assms x show ?thesis by simp
    next
      case (Inr rr)
      show ?thesis
      proof (cases rr)
        case (Final t)
        with assms x Inr show ?thesis by simp
      next
        case (Continue resp)
        obtain y e2 where y: "execute_tools resp tm e1 = (y, e2)"
          by (cases "execute_tools resp tm e1")
        from False Inr Continue y have ny: "\<And>tr trs. y \<noteq> Inr (Some (tr # trs))" by auto
        from assms x Inr Continue y ny have "e' = e2"
          by (cases y; cases "projr y"; cases "the (projr y)") auto
        with execute_tools_api [OF y] show ?thesis by simp
      qed
    qed
    then have "api_calls e' = api_calls e1 @ []" by simp
    then show ?thesis by (rule exI)
  qed
  then obtain more where "api_calls e' = api_calls e1 @ more" ..
  with l1 have "api_calls e' = api_calls e @ (RoundCall n, round_params self msgs sc tls n, outcome) # more"
    by simp
  with cl show ?thesis by blast
qed

text \<open>
  Claim C3, as amended. For a reply of a round with stop reason \<^verbatim>\<open>tool_use\<close> and at
  least one tool-use block, when every exception that the requested calls raise is an
  instance of \<^verbatim>\<open>Exception\<close> that \<^verbatim>\<open>str\<close> prints: every requested call is made
  through the tool manager with its own name and input, in order, whether or not an earlier
  one raised; each call yields one result carrying its id, with the returned text, or with
  \<^verbatim>\<open>Tool execution error: \<close> followed by the message when the call raised; the round is
  a complete tool round, which appends the model's turn and the results to the history. In
  round 1 the next model call is that of round 2, with this history, and when it replies
  with a plain text completion that text is the answer. In round 2 the next model call is
  the synthesis call, with this history and no tools, and when its reply starts with a text
  that text is the answer.
\<close>

theorem tool_errors_do_not_abort_batch:
  assumes "messages_create self (RoundCall n)
             (round_params self msgs (system_content_of self h) tls n) e = (Inr resp, e1)"
    and "stop_reason resp = ''tool_use''"
    and "requested_calls (content resp) \<noteq> []"
    and "tool_outcomes tm (requested_calls (content resp)) (world e1) = (outcomes, w2)"
    and "\<forall>ex. Inl ex \<in> set outcomes \<longrightarrow> catchable ex"
  shows "\<exists>trs e2 msgs2.
            execute_tools resp (Some tm) e1 = (Inr (Some trs), e2)
          \<and> e2 = e1\<lparr>world := w2,
                     tool_calls := tool_calls e1
                       @ map2 call_entry (requested_calls (content resp)) outcomes\<rparr>
          \<and> length outcomes = length (requested_calls (content resp))
          \<and> length trs = length (requested_calls (content resp))
          \<and> (\<forall>k < length (requested_calls (content resp)).
                tool_use_id (trs ! k) = fst (requested_calls (content resp) ! k)
              \<and> result_type (trs ! k) = ''tool_result''
              \<and> (\<forall>s. outcomes ! k = Inr s \<longrightarrow> result_content (trs ! k) = s)
              \<and> (\<forall>ex m. outcomes ! k = Inl ex \<and> str_of ex = Inr m \<longrightarrow>
                     result_content (trs ! k) = ''Tool execution error: '' @ m))
          \<and> msgs2 = msgs @ [Message ''assistant'' (Blocks (content resp)),
                              Message ''user'' (ToolResults trs)]
          \<and> tool_round self (system_content_of self h) tls (Some tm) n msgs e = Some (msgs2, e2)
          \<and> (n = 1 \<and> msgs = [Message ''user'' (Text q)] \<longrightarrow>
               (\<exists>outcome2 rest.
                   api_calls (snd (generate_response self q h tls (Some tm) e))
                     = api_calls e1
                         @ (RoundCall 2, round_params self msgs2 (system_content_of self h) tls 2,
                            outcome2) # rest
                 \<and> p_messages (round_params self msgs2 (system_content_of self h) tls 2) = msgs2
                 \<and> fst (client self (round_params self msgs2 (system_content_of self h) tls 2) w2)
                     = outcome2
                 \<and> (\<forall>resp2 t. outcome2 = Inr resp2 \<and> stop_reason resp2 \<noteq> ''tool_use''
                         \<and> first_text resp2 = Inr t \<longrightarrow>
                       fst (generate_response self q h tls (Some tm) e) = Inr t \<and> rest = [])))
          \<and> (\<forall>e0. n = 2
                  \<and> tool_round self (system_content_of self h) tls (Some tm) 1
                       [Message ''user'' (Text q)] e0 = Some (msgs, e) \<longrightarrow>
               (\<exists>params outcome3 rest.
                   api_calls (snd (generate_response self q h tls (Some tm) e0))
                     = api_calls e1 @ (SynthesisCall, params, outcome3) # rest
                 \<and> p_messages params = msgs2 \<and> p_tools params = None
                 \<and> fst (client self params w2) = outcome3
                 \<and> (\<forall>resp3 t. outcome3 = Inr resp3 \<and> first_text resp3 = Inr t \<longrightarrow>
                       fst (generate_response self q h tls (Some tm) e0) = Inr t \<and> rest = [])))"
proof -
  let ?sc = "system_content_of self h"
  let ?calls = "requested_calls (content resp)"
  let ?trs = "map2 call_result ?calls outcomes"
  let ?e2 = "e1\<lparr>world := w2, tool_calls := tool_calls e1 @ map2 call_entry ?calls outcomes\<rparr>"
  let ?msgs2 = "msgs @ [Message ''assistant'' (Blocks (content resp)),
                        Message ''user'' (ToolResults ?trs)]"
  from execute_blocks_reference [OF assms(4) assms(5), of "[]"]
  have b: "execute_blocks (Some tm) (content resp) [] e1 = (Inr ?trs, ?e2)"
    and len: "length outcomes = length ?calls" by simp_all
  have lt: "length ?trs = length ?calls" using len by simp
  have ne: "?trs \<noteq> []" using assms(3) lt by (metis length_0_conv)
  have ex: "execute_tools resp (Some tm) e1 = (Inr (Some ?trs), ?e2)"
    using assms(2) b ne by (simp add: execute_tools_def)
  have a21: "api_calls ?e2 = api_calls e1" by simp
  have per: "tool_use_id (?trs ! k) = fst (?calls ! k)
            \<and> result_type (?trs ! k) = ''tool_result''
            \<and> (\<forall>s. outcomes ! k = Inr s \<longrightarrow> result_content (?trs ! k) = s)
            \<and> (\<forall>ex m. outcomes ! k = Inl ex \<and> str_of ex = Inr m \<longrightarrow>
                   result_content (?trs ! k) = ''Tool execution error: '' @ m)"
    if k: "k < length ?calls" for k
  proof -
    obtain i n a where c: "?calls ! k = (i, n, a)" by (cases "?calls ! k")
    have "?trs ! k = result_of i (outcomes ! k)"
      using k len c by simp
    then show ?thesis using c by (cases "outcomes ! k") simp_all
  qed
  have tr: "tool_round self ?sc tls (Some tm) n msgs e = Some (?msgs2, ?e2)"
    unfolding tool_round_Some_iff using assms(1-3) ex by simp
  have r1: "\<exists>outcome2 rest.
                   api_calls (snd (generate_response self q h tls (Some tm) e))
                     = api_calls e1 @ (RoundCall 2, round_params self ?msgs2 ?sc tls 2, outcome2) # rest
                 \<and> p_messages (round_params self ?msgs2 ?sc tls 2) = ?msgs2
                 \<and> fst (client self (round_params self ?msgs2 ?sc tls 2) w2) = outcome2
                 \<and> (\<forall>resp2 t. outcome2 = Inr resp2 \<and> stop_reason resp2 \<noteq> ''tool_use''
                         \<and> first_text resp2 = Inr t \<longrightarrow>
                       fst (generate_response self q h tls (Some tm) e) = Inr t \<and> rest = [])"
    if n1: "n = 1" "msgs = [Message ''user'' (Text q)]"
  proof -
    let ?p2 = "round_params self ?msgs2 ?sc tls 2"
    have rl: "round_loop self ?sc tls (Some tm) [1, 2] [Message ''user'' (Text q)] e
        = round_loop self ?sc tls (Some tm) [2] ?msgs2 ?e2"
      using round_loop_tool_round [OF tr, of "[2]"] n1 by simp
    obtain r e3 where r2: "round_loop self ?sc tls (Some tm) [2] ?msgs2 ?e2 = (r, e3)"
      by (cases "round_loop self ?sc tls (Some tm) [2] ?msgs2 ?e2")
    from round_loop_first_call [OF r2] obtain outcome2 more where
      a3: "api_calls e3 = api_calls ?e2 @ (RoundCall 2, ?p2, outcome2) # more"
      and cl: "fst (client self ?p2 (world ?e2)) = outcome2"
      by (elim exE conjE)
    have g: "generate_response self q h tls (Some tm) e
        = (case r of Inl ex \<Rightarrow> handle_exception self q h ex e3 | Inr t \<Rightarrow> (Inr t, e3))"
      using generate_response_unfold [of self h tls "Some tm" q e r e3] rl r2 by simp
    have "\<exists>more2. api_calls (snd (generate_response self q h tls (Some tm) e)) = api_calls e3 @ more2"
    proof (cases r)
      case (Inr t)
      with g have "api_calls (snd (generate_response self q h tls (Some tm) e)) = api_calls e3 @ []"
        by simp
      then show ?thesis by (rule exI)
    next
      case (Inl ex)
      obtain r' e4 where hx: "handle_exception self q h ex e3 = (r', e4)"
        by (cases "handle_exception self q h ex e3")
      from handle_exception_trace [OF hx] obtain more2 where "api_calls e4 = api_calls e3 @ more2"
        by (elim exE conjE)
      with g Inl hx have "api_calls (snd (generate_response self q h tls (Some tm) e)) = api_calls e3 @ more2"
        by simp
      then show ?thesis by (rule exI)
    qed
    then obtain more2 where
      a4: "api_calls (snd (generate_response self q h tls (Some tm) e)) = api_calls e3 @ more2" ..
    have fin: "fst (generate_response self q h tls (Some tm) e) = Inr t \<and> more @ more2 = []"
      if o2: "outcome2 = Inr resp2" "stop_reason resp2 \<noteq> ''tool_use''" "first_text resp2 = Inr t"
      for resp2 t
    proof -
      obtain x e5 where m: "messages_create self (RoundCall 2) ?p2 ?e2 = (x, e5)"
        by (cases "messages_create self (RoundCall 2) ?p2 ?e2")
      from messages_create_trace(3) [OF m] cl o2(1) have x: "x = Inr resp2" by simp
      have er: "execute_round self ?msgs2 ?sc tls (Some tm) 2 ?e2 = (Inr (Final t), e5)"
        unfolding execute_round_Final_iff using m x o2 by blast
      from round_loop_final [OF er, of "[]"] r2 have r: "r = Inr t" and e35: "e3 = e5" by simp_all
      from messages_create_trace(1) [OF m] a3 e35 have "more = []" by simp
      moreover from g r a4 have "more2 = []" by simp
      moreover from g r have "fst (generate_response self q h tls (Some tm) e) = Inr t" by simp
      ultimately show ?thesis by simp
    qed
    have api: "api_calls (snd (generate_response self q h tls (Some tm) e))
        = api_calls e1 @ (RoundCall 2, ?p2, outcome2) # (more @ more2)"
      using a4 a3 by simp
    have pm: "p_messages ?p2 = ?msgs2" by (simp add: round_params_def make_params_def)
    have cl2: "fst (client self ?p2 w2) = outcome2" using cl by simp
    show ?thesis
      apply (rule exI [of _ outcome2])
      apply (rule exI [of _ "more @ more2"])
      using api pm cl2 fin by (intro conjI allI impI) simp_all
  qed
  have r2: "\<exists>params outcome3 rest.
                   api_calls (snd (generate_response self q h tls (Some tm) e0))
                     = api_calls e1 @ (SynthesisCall, params, outcome3) # rest
                 \<and> p_messages params = ?msgs2 \<and> p_tools params = None
                 \<and> fst (client self params w2) = outcome3
                 \<and> (\<forall>resp3 t. outcome3 = Inr resp3 \<and> first_text resp3 = Inr t \<longrightarrow>
                       fst (generate_response self q h tls (Some tm) e0) = Inr t \<and> rest = [])"
    if n2: "n = 2"
      "tool_round self ?sc tls (Some tm) 1 [Message ''user'' (Text q)] e0 = Some (msgs, e)"
    for e0
  proof -
    from tr n2(1) have tr2: "tool_round self ?sc tls (Some tm) 2 msgs e = Some (?msgs2, ?e2)"
      by simp
    from synthesis_after_two_rounds [OF n2(2) tr2]
    obtain r e' params outcome rest where
      g: "generate_response self q h tls (Some tm) e0 = (r, e')"
      and a: "api_calls e' = api_calls ?e2 @ (SynthesisCall, params, outcome) # rest"
      and cl: "fst (client self params (world ?e2)) = outcome"
      and pm: "p_messages params = ?msgs2" and pt: "p_tools params = None"
      and f: "\<forall>resp t'. outcome = Inr resp \<and> first_text resp = Inr t' \<longrightarrow> r = Inr t' \<and> rest = []"
      by (elim exE conjE)
    have api: "api_calls (snd (generate_response self q h tls (Some tm) e0))
        = api_calls e1 @ (SynthesisCall, params, outcome) # rest"
      using g a by simp
    have cl2: "fst (client self params w2) = outcome" using cl by simp
    have fin: "\<forall>resp3 t. outcome = Inr resp3 \<and> first_text resp3 = Inr t \<longrightarrow>
                       fst (generate_response self q h tls (Some tm) e0) = Inr t \<and> rest = []"
      using f g by simp
    show ?thesis
      apply (rule exI [of _ params])
      apply (rule exI [of _ outcome])
      apply (rule exI [of _ rest])
      using api pm pt cl2 fin by (intro conjI)
  qed
  show ?thesis
    apply (rule exI [of _ ?trs])
    apply (rule exI [of _ ?e2])
    apply (rule exI [of _ ?msgs2])
    using ex len lt per tr r1 r2 by (intro conjI allI impI) simp_all
qed

text \<open>
  A tool is interrupted from the keyboard: the batch stops at that call, the second
  requested call is not made, and the interrupt reaches the caller of
  \<^verbatim>\<open>generate_response\<close>.
\<close>

theorem tool_errors_do_not_abort_batch_counterexample:
  "fst (execute_tools two_tool_replies (Some interrupted_tools) (start_env []))
     = Inl (NotException ''KeyboardInterrupt'')
   \<and> map fst (tool_calls (snd (execute_tools two_tool_replies (Some interrupted_tools)
                                   (start_env []))))
     = [''get_course_outline'']
   \<and> fst (generate_response mock_generator ''q'' None (Some [''search_course_content''])
            (Some interrupted_tools)
            (start_env [Inr two_tool_replies, Inr (text_reply ''Handled error gracefully.'')]))
     = Inl (NotException ''KeyboardInterrupt'')"
  by (simp add: gen_defs mock_defs)

theorem tool_errors_do_not_abort_batch_witness:
  "tool_outcomes mock_tools (requested_calls (content two_tool_replies))
       (world (start_env [Inr (text_reply ''Handled error gracefully.'')]))
     = ([Inl (Exception ''Tool failed''), Inr ''Search result''],
        world (start_env [Inr (text_reply ''Handled error gracefully.'')]))
   \<and> fst (execute_tools two_tool_replies (Some mock_tools)
            (snd (messages_create mock_generator (RoundCall 1)
                    (round_params mock_generator [Message ''user'' (Text ''q'')]
                       (system_content_of mock_generator None) (Some [''search_course_content'']) 1)
                    (start_env [Inr two_tool_replies,
                                Inr (text_reply ''Handled error gracefully.'')]))))
       = Inr (Some [\<lparr>result_type = ''tool_result'', tool_use_id = ''tool_1'',
                      result_content = ''Tool execution error: Tool failed''\<rparr>,
                    \<lparr>result_type = ''tool_result'', tool_use_id = ''tool_2'',
                      result_content = ''Search result''\<rparr>])
   \<and> fst (mock_run [Inr two_tool_replies, Inr (text_reply ''Handled error gracefully.'')])
       = Inr ''Handled error gracefully.''
   \<and> map (p_messages \<circ> fst \<circ> snd)
        (drop 1 (api_calls (snd (mock_run [Inr two_tool_replies,
                                            Inr (text_reply ''Handled error gracefully.'')]))))
       = [ [Message ''user'' (Text ''q''),
           Message ''assistant'' (Blocks (content two_tool_replies)),
           Message ''user'' (ToolResults
             [\<lparr>result_type = ''tool_result'', tool_use_id = ''tool_1'',
                result_content = ''Tool execution error: Tool failed''\<rparr>,
              \<lparr>result_type = ''tool_result'', tool_use_id = ''tool_2'',
                result_content = ''Search result''\<rparr>])] ]
   \<and> fst (mock_run [Inr tool_use_reply, Inr two_tool_replies, Inr synthesis_reply])
       = Inr ''Final synthesis after max rounds.''
   \<and> map (\<lambda>c. (fst c, p_tools (fst (snd c)), last (p_messages (fst (snd c)))))
        (drop 2 (api_calls (snd (mock_run [Inr tool_use_reply, Inr two_tool_replies,
                                            Inr synthesis_reply]))))
       = [(SynthesisCall, None,
           Message ''user'' (ToolResults
             [\<lparr>result_type = ''tool_result'', tool_use_id = ''tool_1'',
                result_content = ''Tool execution error: Tool failed''\<rparr>,
              \<lparr>result_type = ''tool_result'', tool_use_id = ''tool_2'',
                result_content = ''Search result''\<rparr>]))]"
proof -
  let ?script = "[Inr two_tool_replies, Inr (text_reply ''Handled error gracefully.'')]"
  let ?sc = "system_content_of mock_generator None"
  let ?tls = "Some [''search_course_content'']"
  let ?q = "[Message ''user'' (Text ''q'')]"
  let ?p1 = "round_params mock_generator ?q ?sc ?tls 1"
  let ?e1 = "snd (messages_create mock_generator (RoundCall 1) ?p1 (start_env ?script))"
  let ?outcomes = "[Inl (Exception ''Tool failed''), Inr ''Search result'']"
  let ?results = "[\<lparr>result_type = ''tool_result'', tool_use_id = ''tool_1'',
                      result_content = ''Tool execution error: Tool failed''\<rparr>,
                    \<lparr>result_type = ''tool_result'', tool_use_id = ''tool_2'',
                      result_content = ''Search result''\<rparr>]"
  have c: "messages_create mock_generator (RoundCall 1) ?p1 (start_env ?script)
      = (Inr two_tool_replies, ?e1)"
    by (simp add: gen_defs mock_defs)
  have w: "world ?e1 = world (start_env [Inr (text_reply ''Handled error gracefully.'')])"
    by (simp add: gen_defs mock_defs)
  have s: "stop_reason two_tool_replies = ''tool_use''"
    and ne: "requested_calls (content two_tool_replies) \<noteq> []"
    by (simp_all add: two_tool_replies_def)
  have o: "tool_outcomes mock_tools (requested_calls (content two_tool_replies)) (world ?e1)
     = (?outcomes, world (start_env [Inr (text_reply ''Handled error gracefully.'')]))"
    unfolding w by (simp add: two_tool_replies_def mock_tools_def)
  have good: "\<forall>ex. Inl ex \<in> set ?outcomes \<longrightarrow> catchable ex"
    by (simp add: catchable_def)
  from tool_errors_do_not_abort_batch [where q = "''q''", OF c s ne o good]
  obtain trs e2 msgs2 where
    x: "execute_tools two_tool_replies (Some mock_tools) ?e1 = (Inr (Some trs), e2)"
    and m: "msgs2 = ?q @ [Message ''assistant'' (Blocks (content two_tool_replies)),
                          Message ''user'' (ToolResults trs)]"
    and i1: "(1::nat) = 1 \<and> ?q = [Message ''user'' (Text ''q'')] \<longrightarrow>
       (\<exists>outcome2 rest.
           api_calls (snd (generate_response mock_generator ''q'' None ?tls (Some mock_tools)
                             (start_env ?script)))
             = api_calls ?e1
                 @ (RoundCall 2, round_params mock_generator msgs2 ?sc ?tls 2, outcome2) # rest
         \<and> p_messages (round_params mock_generator msgs2 ?sc ?tls 2) = msgs2
         \<and> fst (client mock_generator (round_params mock_generator msgs2 ?sc ?tls 2)
                  (world (start_env [Inr (text_reply ''Handled error gracefully.'')])))
             = outcome2
         \<and> (\<forall>resp2 t. outcome2 = Inr resp2 \<and> stop_reason resp2 \<noteq> ''tool_use''
                 \<and> first_text resp2 = Inr t \<longrightarrow>
               fst (generate_response mock_generator ''q'' None ?tls (Some mock_tools)
                      (start_env ?script)) = Inr t \<and> rest = []))"
    by (elim exE conjE)
  from i1 [rule_format, OF conjI [OF refl refl]]
  obtain outcome2 rest where
    a: "api_calls (snd (generate_response mock_generator ''q'' None ?tls (Some mock_tools)
                              (start_env ?script)))
              = api_calls ?e1 @ (RoundCall 2, round_params mock_generator msgs2 ?sc ?tls 2, outcome2)
                  # rest"
    and cl: "fst (client mock_generator (round_params mock_generator msgs2 ?sc ?tls 2)
                    (world (start_env [Inr (text_reply ''Handled error gracefully.'')])))
               = outcome2"
    and f: "\<forall>resp2 t. outcome2 = Inr resp2 \<and> stop_reason resp2 \<noteq> ''tool_use''
                  \<and> first_text resp2 = Inr t \<longrightarrow>
                fst (generate_response mock_generator ''q'' None ?tls (Some mock_tools)
                       (start_env ?script)) = Inr t \<and> rest = []"
    by (elim exE conjE)
  from x have trs: "trs = ?results"
    by (simp add: gen_defs mock_defs)
  from cl have o2: "outcome2 = Inr (text_reply ''Handled error gracefully.'')"
    by (simp add: mock_defs)
  with f have fin: "fst (generate_response mock_generator ''q'' None ?tls (Some mock_tools)
                       (start_env ?script)) = Inr ''Handled error gracefully.''"
    and rest: "rest = []"
    by (simp_all add: text_reply_def first_text_def)
  have l1: "length (api_calls ?e1) = 1" by (simp add: gen_defs mock_defs)
  from a rest l1 m trs
  have msgs: "map (p_messages \<circ> fst \<circ> snd)
        (drop 1 (api_calls (snd (generate_response mock_generator ''q'' None ?tls (Some mock_tools)
                              (start_env ?script)))))
       = [ [Message ''user'' (Text ''q''),
           Message ''assistant'' (Blocks (content two_tool_replies)),
           Message ''user'' (ToolResults ?results)] ]"
    by (simp add: round_params_def make_params_def)
  let ?script2 = "[Inr tool_use_reply, Inr two_tool_replies, Inr synthesis_reply]"
  obtain msgs1 d where
    t1: "tool_round mock_generator ?sc ?tls (Some mock_tools) 1 ?q (start_env ?script2)
           = Some (msgs1, d)"
    and wd: "world d = [Inr two_tool_replies, Inr synthesis_reply]"
    and ad: "length (api_calls d) = 1"
    by (simp add: gen_defs mock_defs)
  let ?p2 = "round_params mock_generator msgs1 ?sc ?tls 2"
  let ?d1 = "snd (messages_create mock_generator (RoundCall 2) ?p2 d)"
  have c2: "messages_create mock_generator (RoundCall 2) ?p2 d = (Inr two_tool_replies, ?d1)"
    using wd by (simp add: messages_create_def mock_generator_def scripted_def)
  have w2: "world ?d1 = world (start_env [Inr synthesis_reply])"
    using wd by (simp add: messages_create_def mock_generator_def scripted_def start_env_def)
  have l2: "length (api_calls ?d1) = 2"
    using wd ad by (simp add: messages_create_def mock_generator_def scripted_def)
  have o': "tool_outcomes mock_tools (requested_calls (content two_tool_replies)) (world ?d1)
     = (?outcomes, world (start_env [Inr synthesis_reply]))"
    unfolding w2 by (simp add: two_tool_replies_def mock_tools_def)
  from tool_errors_do_not_abort_batch [where q = "''q''", OF c2 s ne o' good]
  obtain trs' d2 msgs2' where
    x': "execute_tools two_tool_replies (Some mock_tools) ?d1 = (Inr (Some trs'), d2)"
    and m': "msgs2' = msgs1 @ [Message ''assistant'' (Blocks (content two_tool_replies)),
                               Message ''user'' (ToolResults trs')]"
    and i2: "\<forall>e0. (2::nat) = 2
          \<and> tool_round mock_generator ?sc ?tls (Some mock_tools) 1
               [Message ''user'' (Text ''q'')] e0 = Some (msgs1, d) \<longrightarrow>
       (\<exists>params outcome3 rest.
           api_calls (snd (generate_response mock_generator ''q'' None ?tls (Some mock_tools) e0))
             = api_calls ?d1 @ (SynthesisCall, params, outcome3) # rest
         \<and> p_messages params = msgs2' \<and> p_tools params = None
         \<and> fst (client mock_generator params (world (start_env [Inr synthesis_reply])))
             = outcome3
         \<and> (\<forall>resp3 t. outcome3 = Inr resp3 \<and> first_text resp3 = Inr t \<longrightarrow>
               fst (generate_response mock_generator ''q'' None ?tls (Some mock_tools) e0)
                 = Inr t \<and> rest = []))"
    by (elim exE conjE)
  from i2 [rule_format, OF conjI [OF refl t1]]
  obtain params outcome3 rest3 where
    a3: "api_calls (snd (generate_response mock_generator ''q'' None ?tls (Some mock_tools)
                           (start_env ?script2)))
           = api_calls ?d1 @ (SynthesisCall, params, outcome3) # rest3"
    and pm3: "p_messages params = msgs2'" and pt3: "p_tools params = None"
    and cl3: "fst (client mock_generator params (world (start_env [Inr synthesis_reply])))
                = outcome3"
    and f3: "\<forall>resp3 t. outcome3 = Inr resp3 \<and> first_text resp3 = Inr t \<longrightarrow>
               fst (generate_response mock_generator ''q'' None ?tls (Some mock_tools)
                      (start_env ?script2)) = Inr t \<and> rest3 = []"
    by (elim exE conjE)
  from x' have trs': "trs' = ?results"
    using wd by (simp add: gen_defs mock_defs)
  from cl3 have o3: "outcome3 = Inr synthesis_reply"
    by (simp add: mock_generator_def scripted_def start_env_def)
  with f3 have fin2: "fst (generate_response mock_generator ''q'' None ?tls (Some mock_tools)
                       (start_env ?script2)) = Inr ''Final synthesis after max rounds.''"
    and rest3: "rest3 = []"
    by (simp_all add: synthesis_reply_def first_text_def)
  from a3 rest3 l2 pm3 pt3 m' trs'
  have msgs3: "map (\<lambda>c. (fst c, p_tools (fst (snd c)), last (p_messages (fst (snd c)))))
        (drop 2 (api_calls (snd (generate_response mock_generator ''q'' None ?tls (Some mock_tools)
                              (start_env ?script2)))))
       = [(SynthesisCall, None, Message ''user'' (ToolResults ?results))]"
    by simp
  from fin msgs x trs o w fin2 msgs3 show ?thesis by (simp add: mock_run_def)
qed

text \<open>
  Claim C9. One invocation of \<^verbatim>\<open>generate_response\<close> ends, with a text or with a raise,
  and issues between one and four model calls: at most two from the rounds, at most one
  forced synthesis call and at most one fallback call, whatever the client and the tool
  manager do.
\<close>

theorem generate_response_call_bound:
  "\<exists>r e' new. generate_response self q h tls tm e = (r, e')
      \<and> api_calls e' = api_calls e @ new
      \<and> 1 \<le> length new \<and> length new \<le> 4
      \<and> length (filter (\<lambda>c. \<exists>n. fst c = RoundCall n) new) \<le> 2
      \<and> length (filter (\<lambda>c. fst c = SynthesisCall) new) \<le> 1
      \<and> length (filter (\<lambda>c. fst c = FallbackCall) new) \<le> 1"
proof -
  obtain r e' new where g: "generate_response self q h tls tm e = (r, e')"
      "api_calls e' = api_calls e @ new"
    and m: "map fst new \<in> {[RoundCall 1], [RoundCall 1, RoundCall 2],
                         [RoundCall 1, RoundCall 2, SynthesisCall],
                         [RoundCall 1, FallbackCall], [RoundCall 1, RoundCall 2, FallbackCall],
                         [RoundCall 1, RoundCall 2, SynthesisCall, FallbackCall]}"
    using generate_response_sites [of self q h tls tm e] by (elim exE conjE)
  from m have "1 \<le> length (map fst new) \<and> length (map fst new) \<le> 4
      \<and> length (filter (\<lambda>s. \<exists>n. s = RoundCall n) (map fst new)) \<le> 2
      \<and> length (filter (\<lambda>s. s = SynthesisCall) (map fst new)) \<le> 1
      \<and> length (filter (\<lambda>s. s = FallbackCall) (map fst new)) \<le> 1"
    by (elim insertE emptyE) simp_all
  then have "1 \<le> length new \<and> length new \<le> 4
      \<and> length (filter (\<lambda>c. \<exists>n. fst c = RoundCall n) new) \<le> 2
      \<and> length (filter (\<lambda>c. fst c = SynthesisCall) new) \<le> 1
      \<and> length (filter (\<lambda>c. fst c = FallbackCall) new) \<le> 1"
    by (simp add: filter_map comp_def)
  with g show ?thesis by blast
qed

section \<open>The claims about the store, the ingestion and the chunking\<close>

text \<open>
  Claim C6. The filter is absent when neither argument is given, a single equality clause on
  the given field when exactly one is, and the conjunction of the two clauses when both are.
\<close>

theorem build_filter_shape:
  "build_filter None None = None
   \<and> build_filter (Some t) None = Some (Eq ''course_title'' (StrValue t))
   \<and> build_filter None (Some n) = Some (Eq ''lesson_number'' (IntValue n))
   \<and> build_filter (Some t) (Some n)
       = Some (And [Eq ''course_title'' (StrValue t), Eq ''lesson_number'' (IntValue n)])"
  by (simp add: build_filter_def)

lemma add_course_content_catalog [simp]:
  "course_catalog (add_course_content chunks vs) = course_catalog vs"
  by (induction chunks arbitrary: vs) simp_all

lemma add_course_content_lookup:
  "course_content (add_course_content chunks vs) k
     = (if \<exists>c \<in> set chunks. chunk_key c = k
        then Some (last [c \<leftarrow> chunks. chunk_key c = k])
        else course_content vs k)"
proof (induction chunks arbitrary: vs)
  case Nil
  show ?case by simp
next
  case (Cons c cs)
  show ?case
    unfolding add_course_content.simps Cons.IH
    by (auto simp: filter_empty_conv)
qed

lemma ingest_files_skip_all:
  "set (parsed_titles files) \<subseteq> get_existing_course_titles vs \<Longrightarrow>
     ingest_files files a b vs = (a, b, vs)"
  by (induction files a b vs rule: ingest_files.induct) simp_all

lemma titles_after_write:
  "get_existing_course_titles (add_course_content chunks (add_course_metadata course vs))
     = insert (title course) (get_existing_course_titles vs)"
  by (simp add: get_existing_course_titles_def add_course_metadata_def)

lemma ingest_files_titles:
  "ingest_files files a b vs = (a', b', vs') \<Longrightarrow>
     get_existing_course_titles vs' = get_existing_course_titles vs \<union> set (parsed_titles files)"
proof (induction files a b vs rule: ingest_files.induct)
  case (1 total_courses total_chunks vs)
  then show ?case by simp
next
  case (2 files total_courses total_chunks vs)
  then show ?case by simp
next
  case (3 course chunks files total_courses total_chunks vs)
  show ?case
  proof (cases "title course \<in> get_existing_course_titles vs")
    case True
    with 3 show ?thesis by auto
  next
    case False
    with 3 have "get_existing_course_titles vs'
        = get_existing_course_titles (add_course_content chunks (add_course_metadata course vs))
            \<union> set (parsed_titles files)"
      by simp
    then show ?thesis by (simp add: titles_after_write)
  qed
qed

lemma new_documents_fresh:
  "d \<in> set (new_documents seen files) \<Longrightarrow> title (fst d) \<notin> seen"
  by (induction seen files rule: new_documents.induct) (auto split: if_splits)

lemma new_documents_titles:
  "set (map (title \<circ> fst) (new_documents seen files)) = set (parsed_titles files) - seen"
  by (induction seen files rule: new_documents.induct) auto

lemma new_documents_distinct:
  "distinct (map (title \<circ> fst) (new_documents seen files))"
proof (induction seen files rule: new_documents.induct)
  case (1 seen)
  show ?case by simp
next
  case (2 seen files)
  then show ?case by simp
next
  case (3 seen course chunks files)
  show ?case
  proof (cases "title course \<in> seen")
    case True
    with 3 show ?thesis by simp
  next
    case False
    have "title course \<notin> set (map (title \<circ> fst) (new_documents (insert (title course) seen) files))"
      unfolding new_documents_titles by simp
    with 3 False show ?thesis by simp
  qed
qed

lemma ingest_files_counts:
  "ingest_files files a b vs = (a', b', vs') \<Longrightarrow>
     a' = a + length (new_documents (get_existing_course_titles vs) files)
     \<and> b' = b + length (all_chunks (new_documents (get_existing_course_titles vs) files))"
proof (induction files a b vs rule: ingest_files.induct)
  case (1 total_courses total_chunks vs)
  then show ?case by (simp add: all_chunks_def)
next
  case (2 files total_courses total_chunks vs)
  then show ?case by simp
next
  case (3 course chunks files total_courses total_chunks vs)
  show ?case
  proof (cases "title course \<in> get_existing_course_titles vs")
    case True
    with 3 show ?thesis by simp
  next
    case False
    with 3 show ?thesis by (simp add: titles_after_write all_chunks_def)
  qed
qed

lemma ingest_files_content:
  "ingest_files files a b vs = (a', b', vs') \<Longrightarrow>
     course_content vs' k
       = (if \<exists>c \<in> set (all_chunks (new_documents (get_existing_course_titles vs) files)).
               chunk_key c = k
          then Some (last [c \<leftarrow> all_chunks (new_documents (get_existing_course_titles vs) files).
                             chunk_key c = k])
          else course_content vs k)"
proof (induction files a b vs rule: ingest_files.induct)
  case (1 total_courses total_chunks vs)
  then show ?case by (simp add: all_chunks_def)
next
  case (2 files total_courses total_chunks vs)
  then show ?case by simp
next
  case (3 course chunks files total_courses total_chunks vs)
  show ?case
  proof (cases "title course \<in> get_existing_course_titles vs")
    case True
    with 3 show ?thesis by simp
  next
    case False
    let ?vs1 = "add_course_content chunks (add_course_metadata course vs)"
    let ?N = "all_chunks (new_documents (insert (title course) (get_existing_course_titles vs)) files)"
    from 3(2) [OF False] 3(3) False
    have ih: "course_content vs' k
       = (if \<exists>c \<in> set ?N. chunk_key c = k then Some (last [c \<leftarrow> ?N. chunk_key c = k])
          else course_content ?vs1 k)"
      by (simp add: titles_after_write)
    have c1: "course_content ?vs1 k
       = (if \<exists>c \<in> set chunks. chunk_key c = k then Some (last [c \<leftarrow> chunks. chunk_key c = k])
          else course_content vs k)"
      by (simp add: add_course_content_lookup add_course_metadata_def)
    have n: "all_chunks (new_documents (get_existing_course_titles vs) (Some (course, chunks) # files))
        = chunks @ ?N"
      using False by (simp add: all_chunks_def)
    show ?thesis
      unfolding n ih c1 by (auto simp: filter_empty_conv)
  qed
qed

lemma ingest_files_catalog:
  "ingest_files files a b vs = (a', b', vs') \<Longrightarrow>
     d \<in> set (new_documents (get_existing_course_titles vs) files) \<Longrightarrow>
     course_catalog vs' (title (fst d)) = Some (fst d)"
proof (induction files a b vs rule: ingest_files.induct)
  case (1 total_courses total_chunks vs)
  then show ?case by simp
next
  case (2 files total_courses total_chunks vs)
  then show ?case by simp
next
  case (3 course chunks files total_courses total_chunks vs)
  show ?case
  proof (cases "title course \<in> get_existing_course_titles vs")
    case True
    with 3 show ?thesis by simp
  next
    case False
    let ?vs1 = "add_course_content chunks (add_course_metadata course vs)"
    from 3(3) False have i: "ingest_files files (total_courses + 1) (total_chunks + length chunks) ?vs1
        = (a', b', vs')" by simp
    from 3(4) False have "d = (course, chunks)
        \<or> d \<in> set (new_documents (get_existing_course_titles ?vs1) files)"
      by (simp add: titles_after_write)
    then show ?thesis
    proof
      assume "d \<in> set (new_documents (get_existing_course_titles ?vs1) files)"
      with 3(2) [OF False i] show ?thesis by simp
    next
      assume d: "d = (course, chunks)"
      have keep: "course_catalog vs'' t = Some c"
        if "ingest_files fs x y vs0 = (x', y', vs'')" "course_catalog vs0 t = Some c"
        for fs x y vs0 x' y' vs'' t c
        using that
      proof (induction fs x y vs0 rule: ingest_files.induct)
        case (1 total_courses total_chunks vs)
        then show ?case by simp
      next
        case (2 files total_courses total_chunks vs)
        then show ?case by simp
      next
        case (3 course chunks files total_courses total_chunks vs)
        show ?case
        proof (cases "title course \<in> get_existing_course_titles vs")
          case True
          with 3 show ?thesis by simp
        next
          case False
          with 3(4) have "t \<noteq> title course"
            by (auto simp: get_existing_course_titles_def)
          with 3(4) have "course_catalog (add_course_content chunks (add_course_metadata course vs)) t
              = Some c" by (simp add: add_course_metadata_def)
          with 3(2) [OF False] 3(3) False show ?thesis by simp
        qed
      qed
      have "course_catalog ?vs1 (title course) = Some course"
        by (simp add: add_course_metadata_def)
      from keep [OF i this] d show ?thesis by simp
    qed
  qed
qed

lemma add_course_folder_effect:
  assumes a: "add_course_folder files False vs = (n, c, vs1)"
  shows "add_course_folder files False vs1 = (0, 0, vs1)
     \<and> set (parsed_titles files) \<subseteq> get_existing_course_titles vs1
     \<and> n = card (set (parsed_titles files) - get_existing_course_titles vs)
     \<and> n = length (new_documents (get_existing_course_titles vs) files)
     \<and> c = length (all_chunks (new_documents (get_existing_course_titles vs) files))
     \<and> (\<forall>d \<in> set (new_documents (get_existing_course_titles vs) files).
           course_catalog vs1 (title (fst d)) = Some (fst d))
     \<and> (\<forall>ch \<in> set (all_chunks (new_documents (get_existing_course_titles vs) files)).
           course_content vs1 (chunk_key ch)
             = Some (last [x \<leftarrow> all_chunks (new_documents (get_existing_course_titles vs) files).
                             chunk_key x = chunk_key ch]))"
proof -
  let ?N = "new_documents (get_existing_course_titles vs) files"
  from a have i: "ingest_files files 0 0 vs = (n, c, vs1)" by (simp add: add_course_folder_def)
  from ingest_files_titles [OF i]
  have s: "set (parsed_titles files) \<subseteq> get_existing_course_titles vs1" by simp
  from ingest_files_skip_all [OF s]
  have again: "add_course_folder files False vs1 = (0, 0, vs1)" by (simp add: add_course_folder_def)
  from ingest_files_counts [OF i] have n: "n = length ?N" and c: "c = length (all_chunks ?N)"
    by simp_all
  have "card (set (parsed_titles files) - get_existing_course_titles vs)
      = card (set (map (title \<circ> fst) ?N))"
    by (simp only: new_documents_titles)
  also have "\<dots> = length (map (title \<circ> fst) ?N)"
    by (rule distinct_card [OF new_documents_distinct])
  finally have card: "n = card (set (parsed_titles files) - get_existing_course_titles vs)"
    using n by simp
  have cat: "\<forall>d \<in> set ?N. course_catalog vs1 (title (fst d)) = Some (fst d)"
    using ingest_files_catalog [OF i] by blast
  have con: "\<forall>ch \<in> set (all_chunks ?N). course_content vs1 (chunk_key ch)
           = Some (last [x \<leftarrow> all_chunks ?N. chunk_key x = chunk_key ch])"
    using ingest_files_content [OF i] by auto
  from again s card n c cat con show ?thesis by (intro conjI)
qed

text \<open>
  Claim C7. After a call without \<^verbatim>\<open>clear_existing\<close> every course of the folder is in
  the catalog, the courses added are the documents of the folder with a title that is new,
  each title once, the chunks added are all the chunks of these documents, and a second call
  on the same folder adds 0 courses and 0 chunks and leaves the store as it is. With
  \<^verbatim>\<open>clear_existing\<close> the call behaves as on an empty store, whatever was stored
  before: it adds every course of the folder, once per title, and all its chunks; afterwards
  the catalog holds each of these courses under its title and nothing else, and the content
  collection holds, under the key of each of these chunks, the chunk written last with that
  key, and nothing else.
\<close>

theorem add_course_folder_idempotent:
  "(\<forall>n c vs1. add_course_folder files False vs = (n, c, vs1) \<longrightarrow>
       add_course_folder files False vs1 = (0, 0, vs1)
     \<and> set (parsed_titles files) \<subseteq> get_existing_course_titles vs1
     \<and> n = card (set (parsed_titles files) - get_existing_course_titles vs)
     \<and> n = length (new_documents (get_existing_course_titles vs) files)
     \<and> c = length (all_chunks (new_documents (get_existing_course_titles vs) files))
     \<and> (\<forall>d \<in> set (new_documents (get_existing_course_titles vs) files).
           course_catalog vs1 (title (fst d)) = Some (fst d))
     \<and> (\<forall>ch \<in> set (all_chunks (new_documents (get_existing_course_titles vs) files)).
           course_content vs1 (chunk_key ch)
             = Some (last [x \<leftarrow> all_chunks (new_documents (get_existing_course_titles vs) files).
                             chunk_key x = chunk_key ch])))
   \<and> add_course_folder files True vs
       = add_course_folder files False \<lparr>course_catalog = Map.empty, course_content = Map.empty\<rparr>
   \<and> fst (add_course_folder files True vs) = card (set (parsed_titles files))
   \<and> get_existing_course_titles (snd (snd (add_course_folder files True vs)))
       = set (parsed_titles files)
   \<and> fst (add_course_folder files True vs) = length (new_documents {} files)
   \<and> distinct (map (title \<circ> fst) (new_documents {} files))
   \<and> set (map (title \<circ> fst) (new_documents {} files)) = set (parsed_titles files)
   \<and> fst (snd (add_course_folder files True vs)) = length (all_chunks (new_documents {} files))
   \<and> (\<forall>d \<in> set (new_documents {} files).
         course_catalog (snd (snd (add_course_folder files True vs))) (title (fst d))
           = Some (fst d))
   \<and> (\<forall>ch \<in> set (all_chunks (new_documents {} files)).
         course_content (snd (snd (add_course_folder files True vs))) (chunk_key ch)
           = Some (last [x \<leftarrow> all_chunks (new_documents {} files). chunk_key x = chunk_key ch]))
   \<and> dom (course_content (snd (snd (add_course_folder files True vs))))
       = chunk_key ` set (all_chunks (new_documents {} files))"
proof -
  note part1 = add_course_folder_effect
  let ?empty = "\<lparr>course_catalog = Map.empty, course_content = Map.empty\<rparr>"
  have clear: "add_course_folder files True vs = add_course_folder files False ?empty"
    by (simp add: add_course_folder_def clear_all_data_def)
  obtain n c vs1 where r: "add_course_folder files False ?empty = (n, c, vs1)"
    by (cases "add_course_folder files False ?empty") auto
  then have i: "ingest_files files 0 0 ?empty = (n, c, vs1)" by (simp add: add_course_folder_def)
  have e: "get_existing_course_titles ?empty = {}"
    by (simp add: get_existing_course_titles_def)
  note p = part1 [OF r, unfolded e]
  have t: "get_existing_course_titles vs1 = set (parsed_titles files)"
    using ingest_files_titles [OF i] e by simp
  have d: "dom (course_content vs1) = chunk_key ` set (all_chunks (new_documents {} files))"
  proof -
    have "course_content vs1 k \<noteq> None \<longleftrightarrow> k \<in> chunk_key ` set (all_chunks (new_documents {} files))"
      for k
      using ingest_files_content [OF i, of k] e by auto
    then show ?thesis by (auto simp: dom_def)
  qed
  have t2: "set (map (title \<circ> fst) (new_documents {} files)) = set (parsed_titles files)"
    by (simp only: new_documents_titles) simp
  show ?thesis
    using part1 [of files vs] p t d t2 new_documents_distinct [of "{}" files]
    unfolding clear r by (intro conjI allI impI) simp_all
qed

theorem add_course_folder_idempotent_witness:
  "fst (add_course_folder sample_folder False empty_store) = 1
   \<and> fst (snd (add_course_folder sample_folder False empty_store)) = 2
   \<and> add_course_folder sample_folder False
        (snd (snd (add_course_folder sample_folder False empty_store)))
       = (0, 0, snd (snd (add_course_folder sample_folder False empty_store)))
   \<and> course_content (snd (snd (add_course_folder sample_folder True empty_store)))
        (''Existing Course'', 1) = Some (sample_chunks ! 1)
   \<and> fst (snd (add_course_folder sample_folder True
                  (snd (snd (add_course_folder sample_folder False empty_store))))) = 2"
proof -
  have c: "fst (add_course_folder sample_folder False empty_store) = 1
      \<and> fst (snd (add_course_folder sample_folder False empty_store)) = 2"
    by (simp add: add_course_folder_def sample_folder_def sample_course_def sample_chunks_def
          empty_store_def get_existing_course_titles_def add_course_metadata_def)
  then have h: "add_course_folder sample_folder False empty_store
      = (1, 2, snd (snd (add_course_folder sample_folder False empty_store)))"
    by (metis prod.collapse)
  from add_course_folder_idempotent [of sample_folder empty_store, THEN conjunct1, rule_format, OF h]
  have again: "add_course_folder sample_folder False
        (snd (snd (add_course_folder sample_folder False empty_store)))
       = (0, 0, snd (snd (add_course_folder sample_folder False empty_store)))"
    by (elim conjE)
  have n: "new_documents {} sample_folder = [(sample_course, sample_chunks)]"
    by (simp add: sample_folder_def)
  have m: "sample_chunks ! 1 \<in> set (all_chunks (new_documents {} sample_folder))"
    unfolding n by (simp add: all_chunks_def sample_chunks_def)
  let ?vs = "snd (snd (add_course_folder sample_folder False empty_store))"
  note t = add_course_folder_idempotent [of sample_folder, THEN conjunct2]
  from t [of empty_store] have "\<forall>ch \<in> set (all_chunks (new_documents {} sample_folder)).
         course_content (snd (snd (add_course_folder sample_folder True empty_store))) (chunk_key ch)
           = Some (last [x \<leftarrow> all_chunks (new_documents {} sample_folder). chunk_key x = chunk_key ch])"
    by (elim conjE)
  from this [rule_format, OF m]
  have con: "course_content (snd (snd (add_course_folder sample_folder True empty_store)))
        (''Existing Course'', 1) = Some (sample_chunks ! 1)"
    unfolding n by (simp add: all_chunks_def sample_chunks_def chunk_key_def)
  from t [of ?vs] have "fst (snd (add_course_folder sample_folder True ?vs))
      = length (all_chunks (new_documents {} sample_folder))"
    by (elim conjE)
  then have cnt: "fst (snd (add_course_folder sample_folder True ?vs)) = 2"
    unfolding n by (simp add: all_chunks_def sample_chunks_def)
  from c again con cnt show ?thesis by simp
qed

lemma space_is_whitespace [simp]: "is_whitespace CHR '' ''"
  by (simp add: is_whitespace_def)

lemma collapse_head:
  "collapse True cs = [] \<or> hd (collapse True cs) \<noteq> CHR '' ''"
  by (induction cs) auto

lemma single_spaced_Cons:
  "single_spaced (a # xs) \<longleftrightarrow>
     (is_whitespace a = (a = CHR '' '')) \<and> (xs = [] \<or> \<not> (a = CHR '' '' \<and> hd xs = CHR '' ''))
     \<and> single_spaced xs"
  by (cases xs) simp_all

lemma collapse_single_spaced: "single_spaced (collapse in_run cs)"
proof (induction cs arbitrary: in_run)
  case Nil
  then show ?case by simp
next
  case (Cons c cs)
  show ?case
  proof (cases "is_whitespace c")
    case True
    then show ?thesis
      using Cons.IH [of True] collapse_head [of cs]
      by (cases in_run) (auto simp: single_spaced_Cons)
  next
    case False
    then have "c \<noteq> CHR '' ''" by auto
    with False show ?thesis
      using Cons.IH [of False] by (auto simp: single_spaced_Cons)
  qed
qed

lemma collapse_keeps_words:
  "filter (\<lambda>c. \<not> is_whitespace c) (collapse in_run cs) = filter (\<lambda>c. \<not> is_whitespace c) cs"
  by (induction cs arbitrary: in_run) auto

text \<open>
  Claim C8. A text whose normalised form is no longer than the chunk size yields exactly one
  chunk, the normalised text: its only whitespace characters are single spaces, and its
  other characters are those of the input, in order.
\<close>

theorem chunk_text_short:
  assumes "length (normalize_whitespace text) \<le> chunk_size"
  shows "chunk_text split_sentences text chunk_size overlap = [normalize_whitespace text]
     \<and> single_spaced (normalize_whitespace text)
     \<and> filter (\<lambda>c. \<not> is_whitespace c) (normalize_whitespace text)
         = filter (\<lambda>c. \<not> is_whitespace c) text"
  using assms
  by (simp add: chunk_text_def normalize_whitespace_def collapse_single_spaced collapse_keeps_words)

theorem chunk_text_short_witness:
  "length (normalize_whitespace ''Short  text.'') \<le> 100
   \<and> chunk_text fixed_width_split ''Short  text.'' 100 20 = [''Short text.'']"
proof -
  have n: "normalize_whitespace ''Short  text.'' = ''Short text.''"
    by (simp add: normalize_whitespace_def is_whitespace_def)
  then have h: "length (normalize_whitespace ''Short  text.'') \<le> 100" by simp
  from chunk_text_short [OF h, of fixed_width_split 20] n h show ?thesis by simp
qed

end
